theory Spec2Isabelle
  imports Complex_Main "HOL-Library.AList" "HOL-Library.Sublist"
begin

section \<open>Values of the program\<close>

text \<open>
  \<^verbatim>\<open>list.py\<close> is dynamically typed: an attribute of a \<^verbatim>\<open>Probe\<close> first holds the
  empty string, then whatever the decoded JSON record carries under that name, and for
  \<^verbatim>\<open>status\<close>, \<^verbatim>\<open>geometry\<close> and \<^verbatim>\<open>tags\<close> finally an object built from it. One type of
  values therefore covers the decoded JSON (\<^verbatim>\<open>None\<close>, booleans, integers, floats,
  strings, lists, dicts) and the instances of the five classes of the file.

  A float is a finite number, written as the rational number it denotes, or one of the
  four special values that \<^verbatim>\<open>r.json()\<close> can also produce: negative zero, the two
  infinities and NaN. A character is a code point. A dict is the
  list of its items in insertion order; the accessors below read a list in which a key
  occurs twice as the dict obtained by storing the items one after the other. An instance
  of a class with \<^verbatim>\<open>__slots__\<close> is the class together with the slots assigned so far.
\<close>

datatype cls = Tag | Status | Point | Geometry | Probe

datatype pyfloat = Fin rat | NegZero | PosInf | NegInf | NaN

datatype val =
    VNone
  | VBool bool
  | VInt int
  | VFloat pyfloat
  | VStr string
  | VList "val list"
  | VDict "(string \<times> val) list"
  | VObj cls "(string \<times> val) list"

datatype error =
    AttributeError
  | TypeError
  | KeyError string
  | ValueError
  | JSONDecodeError
  | HTTPError nat
  | ConnectionError

definition bindE :: "error + 'a \<Rightarrow> ('a \<Rightarrow> error + 'b) \<Rightarrow> error + 'b" where
  "bindE m f = (case m of Inl e \<Rightarrow> Inl e | Inr x \<Rightarrow> f x)"

fun mapE :: "('a \<Rightarrow> error + 'b) \<Rightarrow> 'a list \<Rightarrow> error + 'b list" where
  "mapE f [] = Inr []"
| "mapE f (x # xs) = bindE (f x) (\<lambda>y. bindE (mapE f xs) (\<lambda>ys. Inr (y # ys)))"

text \<open>Truth value of an object, as \<^verbatim>\<open>if v:\<close> and \<^verbatim>\<open>not v\<close> test it.\<close>

fun nonzero :: "pyfloat \<Rightarrow> bool" where
  "nonzero (Fin q) = (q \<noteq> 0)"
| "nonzero NegZero = False"
| "nonzero _ = True"

fun truthy :: "val \<Rightarrow> bool" where
  "truthy VNone = False"
| "truthy (VBool b) = b"
| "truthy (VInt i) = (i \<noteq> 0)"
| "truthy (VFloat x) = nonzero x"
| "truthy (VStr s) = (s \<noteq> [])"
| "truthy (VList xs) = (xs \<noteq> [])"
| "truthy (VDict d) = (d \<noteq> [])"
| "truthy (VObj c a) = True"

text \<open>The items of a dict: a later store to a key replaces the value and keeps the place.\<close>

definition dict_items :: "(string \<times> val) list \<Rightarrow> (string \<times> val) list" where
  "dict_items d = fold (\<lambda>(k, v). AList.update k v) d []"

definition dict_get :: "(string \<times> val) list \<Rightarrow> string \<Rightarrow> val option" where
  "dict_get d k = map_of (dict_items d) k"

definition dict_keys :: "(string \<times> val) list \<Rightarrow> string list" where
  "dict_keys d = map fst (dict_items d)"

text \<open>\<^verbatim>\<open>v[k]\<close> for a string \<^verbatim>\<open>k\<close>: only a dict can be subscripted by a string.\<close>

fun getitem :: "val \<Rightarrow> string \<Rightarrow> error + val" where
  "getitem (VDict d) k = (case dict_get d k of Some v \<Rightarrow> Inr v | None \<Rightarrow> Inl (KeyError k))"
| "getitem _ k = Inl TypeError"

text \<open>Iteration, as a \<^verbatim>\<open>for\<close> loop, a comprehension and \<^verbatim>\<open>*v\<close> in a call do it.\<close>

fun iter :: "val \<Rightarrow> error + val list" where
  "iter (VList xs) = Inr xs"
| "iter (VStr s) = Inr (map (\<lambda>c. VStr [c]) s)"
| "iter (VDict d) = Inr (map VStr (dict_keys d))"
| "iter _ = Inl TypeError"

section \<open>Classes with slots\<close>

fun slots :: "cls \<Rightarrow> string list" where
  "slots Tag = [''name'', ''slug'']"
| "slots Status = [''since'', ''id'', ''name'']"
| "slots Point = [''x'', ''y'', ''lat'', ''lng'']"
| "slots Geometry = [''coordinates'', ''type'']"
| "slots Probe =
     [''address_v4'', ''address_v6'', ''asn_v4'', ''asn_v6'', ''country_code'',
      ''description'', ''first_connected'', ''geometry'', ''id'', ''is_anchor'',
      ''is_public'', ''last_connected'', ''prefix_v4'', ''prefix_v6'', ''status'',
      ''status_since'', ''tags'', ''type'']"

text \<open>
  An instance of a class with \<^verbatim>\<open>__slots__\<close> has no \<^verbatim>\<open>__dict__\<close>: \<^verbatim>\<open>setattr\<close> stores into
  a slot and raises for every other name (\<^verbatim>\<open>TypeError\<close> for \<^verbatim>\<open>__class__\<close>, which only
  accepts a class, \<^verbatim>\<open>AttributeError\<close> otherwise).
\<close>

fun setattr :: "val \<Rightarrow> string \<Rightarrow> val \<Rightarrow> error + val" where
  "setattr (VObj c a) k v =
     (if k \<in> set (slots c) then Inr (VObj c (AList.update k v a))
      else if k = ''__class__'' then Inl TypeError
      else Inl AttributeError)"
| "setattr _ k v = Inl AttributeError"

fun getattr :: "val \<Rightarrow> string \<Rightarrow> error + val" where
  "getattr (VObj c a) k = (case map_of a k of Some v \<Rightarrow> Inr v | None \<Rightarrow> Inl AttributeError)"
| "getattr _ k = Inl AttributeError"

text \<open>\<^verbatim>\<open>for k, v in kwargs.items(): setattr(self, k, v)\<close>\<close>

fun set_all :: "val \<Rightarrow> (string \<times> val) list \<Rightarrow> error + val" where
  "set_all self [] = Inr self"
| "set_all self ((k, v) # kvs) = bindE (setattr self k v) (\<lambda>self'. set_all self' kvs)"

text \<open>\<^verbatim>\<open>for attrib in self.__slots__: setattr(self, attrib, '')\<close> on a fresh instance.\<close>

definition fill :: "cls \<Rightarrow> error + val" where
  "fill c = set_all (VObj c []) (map (\<lambda>attrib. (attrib, VStr [])) (slots c))"

text \<open>
  \<^verbatim>\<open>C(**v)\<close> for a constructor \<^verbatim>\<open>def __init__(self, **kwargs)\<close>: \<^verbatim>\<open>v\<close> has to be a
  mapping, and a key \<^verbatim>\<open>self\<close> collides with the first parameter.
\<close>

fun call_kwargs :: "((string \<times> val) list \<Rightarrow> error + val) \<Rightarrow> val \<Rightarrow> error + val" where
  "call_kwargs init (VDict d) =
     (if ''self'' \<in> set (dict_keys d) then Inl TypeError else init (dict_items d))"
| "call_kwargs init _ = Inl TypeError"

section \<open>Record normaliser\<close>

definition Tag_init :: "val \<Rightarrow> val \<Rightarrow> val" where
  "Tag_init name slug = VObj Tag [(''name'', name), (''slug'', slug)]"

definition Status_init :: "(string \<times> val) list \<Rightarrow> error + val" where
  "Status_init kwargs = bindE (fill Status) (\<lambda>self. set_all self kwargs)"

text \<open>
  \<^verbatim>\<open>self.x, self.y = coords\<close> raises \<^verbatim>\<open>ValueError\<close> unless \<^verbatim>\<open>coords\<close> has exactly two
  elements; then \<^verbatim>\<open>self.lat, self.lng = self.y, self.x\<close>.
\<close>

fun Point_init :: "val list \<Rightarrow> error + val" where
  "Point_init [x, y] = Inr (VObj Point [(''x'', x), (''y'', y), (''lat'', y), (''lng'', x)])"
| "Point_init _ = Inl ValueError"

definition Geometry_init :: "(string \<times> val) list \<Rightarrow> error + val" where
  "Geometry_init kwargs =
     bindE (fill Geometry) (\<lambda>self.
     bindE (set_all self kwargs) (\<lambda>self.
     bindE (getattr self ''coordinates'') (\<lambda>coordinates.
     bindE (if truthy coordinates then bindE (iter coordinates) Point_init
            else Point_init [VFloat (Fin (- 1111)), VFloat (Fin (- 1111))]) (\<lambda>point.
     setattr self ''coordinates'' point))))"

text \<open>\<^verbatim>\<open>Tag(t[u'name'], t[u'slug'])\<close>\<close>

definition make_tag :: "val \<Rightarrow> error + val" where
  "make_tag t =
     bindE (getitem t ''name'') (\<lambda>name.
     bindE (getitem t ''slug'') (\<lambda>slug. Inr (Tag_init name slug)))"

definition Probe_init :: "(string \<times> val) list \<Rightarrow> error + val" where
  "Probe_init kwargs =
     bindE (fill Probe) (\<lambda>self.
     bindE (set_all self kwargs) (\<lambda>self.
     bindE (getattr self ''status'') (\<lambda>status.
     bindE (if truthy status then call_kwargs Status_init status else Status_init []) (\<lambda>status.
     bindE (setattr self ''status'' status) (\<lambda>self.
     bindE (getattr self ''geometry'') (\<lambda>geometry.
     bindE (if truthy geometry then call_kwargs Geometry_init geometry
            else Geometry_init []) (\<lambda>geometry.
     bindE (setattr self ''geometry'' geometry) (\<lambda>self.
     bindE (getattr self ''tags'') (\<lambda>tags.
     bindE (iter tags) (\<lambda>ts.
     bindE (mapE make_tag ts) (\<lambda>tags.
     setattr self ''tags'' (VList tags))))))))))))"

text \<open>\<^verbatim>\<open>Probe(**probe_data)\<close>, the normalisation of one raw record.\<close>

definition normalise :: "val \<Rightarrow> error + val" where
  "normalise probe_data = call_kwargs Probe_init probe_data"

section \<open>Text of values\<close>

definition API_ROOT :: string where
  "API_ROOT = ''https://atlas.ripe.net/api/v2''"

definition API_PROBES :: string where
  "API_PROBES = API_ROOT @ ''/probes/''"

definition PAGE_SZ :: nat where
  "PAGE_SZ = 500"

definition COL_SEP :: string where
  "COL_SEP = '',''"

definition TAG_SEP :: string where
  "TAG_SEP = ''+''"

fun digits :: "nat \<Rightarrow> string" where
  "digits n =
     (if n < 10 then [''0123456789'' ! n]
      else digits (n div 10) @ [''0123456789'' ! (n mod 10)])"

declare digits.simps [simp del]

definition show_int :: "int \<Rightarrow> string" where
  "show_int i = (if i < 0 then ''-'' @ digits (nat (- i)) else digits (nat i))"

text \<open>
  What the program leaves to the interpreter and this theory does not compute: the
  \<^verbatim>\<open>repr\<close> of a value and \<^verbatim>\<open>str.upper\<close> of a string. Both are parameters of the
  functions below; the cases that are computed here are listed with each function.
\<close>

record interpreter =
  py_repr :: "val \<Rightarrow> string"
  py_upper :: "string \<Rightarrow> string"

text \<open>
  \<^verbatim>\<open>str(x)\<close> of a float. A finite float with an integral value below \<open>10\<^sup>1\<^sup>6\<close> in
  magnitude is printed as its digits followed by \<^verbatim>\<open>.0\<close>; negative zero, the infinities
  and NaN have fixed texts; the shortest round-trip digits of any other float are the
  interpreter's.
\<close>

fun float_str :: "interpreter \<Rightarrow> pyfloat \<Rightarrow> string" where
  "float_str rt (Fin q) =
     (if of_int \<lfloor>q\<rfloor> = q \<and> \<bar>q\<bar> < 10 ^ 16 then show_int \<lfloor>q\<rfloor> @ ''.0''
      else py_repr rt (VFloat (Fin q)))"
| "float_str rt NegZero = ''-0.0''"
| "float_str rt PosInf = ''inf''"
| "float_str rt NegInf = ''-inf''"
| "float_str rt NaN = ''nan''"

text \<open>
  \<^verbatim>\<open>str(v)\<close>. The text of \<^verbatim>\<open>None\<close>, of a boolean, of an integer, of a string and of
  a float is given here; the text of a container or of an instance is its \<^verbatim>\<open>repr\<close>.
\<close>

fun str :: "interpreter \<Rightarrow> val \<Rightarrow> string" where
  "str rt VNone = ''None''"
| "str rt (VBool b) = (if b then ''True'' else ''False'')"
| "str rt (VInt i) = show_int i"
| "str rt (VStr s) = s"
| "str rt (VFloat x) = float_str rt x"
| "str rt v = py_repr rt v"

text \<open>\<^verbatim>\<open>sep.join(xs)\<close> on strings.\<close>

fun join :: "string \<Rightarrow> string list \<Rightarrow> string" where
  "join sep [] = []"
| "join sep [x] = x"
| "join sep (x # y # ys) = x @ sep @ join sep (y # ys)"

text \<open>
  \<^verbatim>\<open>s.upper()\<close>. On a string of ASCII characters it maps the letters \<^verbatim>\<open>a\<close> to \<^verbatim>\<open>z\<close>
  to \<^verbatim>\<open>A\<close> to \<^verbatim>\<open>Z\<close> and keeps every other character; on any other string the result
  (which may differ in length) is the interpreter's.
\<close>

definition upper_char :: "char \<Rightarrow> char" where
  "upper_char c =
     (case map_of (zip ''abcdefghijklmnopqrstuvwxyz'' ''ABCDEFGHIJKLMNOPQRSTUVWXYZ'') c of
        Some u \<Rightarrow> u
      | None \<Rightarrow> c)"

definition is_ascii :: "char \<Rightarrow> bool" where
  "is_ascii c = (\<not> digit7 c)"

definition str_upper :: "interpreter \<Rightarrow> string \<Rightarrow> string" where
  "str_upper rt s = (if list_all is_ascii s then map upper_char s else py_upper rt s)"

text \<open>\<^verbatim>\<open>v.upper()\<close>: only a string has the method.\<close>

fun upper :: "interpreter \<Rightarrow> val \<Rightarrow> error + val" where
  "upper rt (VStr s) = Inr (VStr (str_upper rt s))"
| "upper rt _ = Inl AttributeError"

text \<open>\<^verbatim>\<open>TAG_SEP.join(t.slug for t in tags)\<close>: every item has to be a string.\<close>

fun as_str :: "val \<Rightarrow> error + string" where
  "as_str (VStr s) = Inr s"
| "as_str _ = Inl TypeError"

definition join_slugs :: "val \<Rightarrow> error + val" where
  "join_slugs tags =
     bindE (iter tags) (\<lambda>ts.
     bindE (mapE (\<lambda>t. bindE (getattr t ''slug'') as_str) ts) (\<lambda>slugs.
     Inr (VStr (join TAG_SEP slugs))))"

text \<open>\<^verbatim>\<open>p.a.b.c\<close>\<close>

fun getpath :: "val \<Rightarrow> string list \<Rightarrow> error + val" where
  "getpath v [] = Inr v"
| "getpath v (k # ks) = bindE (getattr v k) (\<lambda>w. getpath w ks)"

definition flag :: "val \<Rightarrow> error + val" where
  "flag v = Inr (VInt (if truthy v then 1 else 0))"

section \<open>Serialisation of a probe\<close>

text \<open>
  The tuple of \<^verbatim>\<open>main\<close>, its sixteen expressions evaluated from left to right, and the
  line \<^verbatim>\<open>COL_SEP.join(str(v) for v in (...))\<close> made of it.
\<close>

definition row_values :: "interpreter \<Rightarrow> val \<Rightarrow> error + val list" where
  "row_values rt p =
     mapE (\<lambda>compute. compute p)
       [\<lambda>p. getattr p ''id'',
        \<lambda>p. getattr p ''asn_v4'',
        \<lambda>p. getattr p ''address_v4'',
        \<lambda>p. getattr p ''prefix_v4'',
        \<lambda>p. getattr p ''asn_v6'',
        \<lambda>p. getattr p ''address_v6'',
        \<lambda>p. getattr p ''prefix_v6'',
        \<lambda>p. getattr p ''country_code'',
        \<lambda>p. getpath p [''geometry'', ''coordinates'', ''lat''],
        \<lambda>p. getpath p [''geometry'', ''coordinates'', ''lng''],
        \<lambda>p. bindE (getattr p ''is_anchor'') flag,
        \<lambda>p. bindE (getattr p ''is_public'') flag,
        \<lambda>p. getattr p ''last_connected'',
        \<lambda>p. bindE (getpath p [''status'', ''name'']) (upper rt),
        \<lambda>p. getattr p ''status_since'',
        \<lambda>p. bindE (getattr p ''tags'') join_slugs]"

definition row :: "interpreter \<Rightarrow> val \<Rightarrow> error + string" where
  "row rt p = bindE (row_values rt p) (\<lambda>vs. Inr (join COL_SEP (map (str rt) vs)))"

section \<open>Paginator\<close>

text \<open>
  A request is the URL given to \<^verbatim>\<open>requests.get\<close> with its query parameters. The call
  either raises (no response could be had) or returns a response, of which the program
  reads the status code and the decoded JSON body (\<^verbatim>\<open>r.json()\<close> raises when the body is
  not JSON). The remote side is a function from the requests issued so far, the current
  one last, to the outcome of the current one.
\<close>

datatype request = Get val "(string \<times> val) list"

datatype response = Unreachable | Response nat "val option"

type_synonym server = "request list \<Rightarrow> response"

text \<open>
  \<^verbatim>\<open>r.raise_for_status()\<close> of the \<^verbatim>\<open>requests\<close> library raises \<^verbatim>\<open>HTTPError\<close> for the
  client-error and server-error codes, 400 to 599, and returns for every other code.
\<close>

definition raise_for_status :: "nat \<Rightarrow> error + unit" where
  "raise_for_status code = (if 400 \<le> code \<and> code < 600 then Inl (HTTPError code) else Inr ())"

definition codes_ok :: nat where
  "codes_ok = 200"

text \<open>
  \<^verbatim>\<open>get_probe_data\<close> and \<^verbatim>\<open>get_probes\<close> are generators: the \<^verbatim>\<open>for\<close> loop that drives
  them runs its body on each probe before the generator goes on, and an exception on
  either side ends both. The generators therefore take the loop body as a parameter, a
  function from the state of the consumer and the probe to the new state or an error, and
  return the state reached together with the exception, if one was raised.
\<close>

fun each_probe ::
  "('s \<Rightarrow> val \<Rightarrow> error + 's) \<Rightarrow> val list \<Rightarrow> 's \<Rightarrow> 's \<times> error option" where
  "each_probe body [] s = (s, None)"
| "each_probe body (probe_data # rest) s =
     (case normalise probe_data of
        Inl e \<Rightarrow> (s, Some e)
      | Inr p \<Rightarrow>
          (case body s p of
             Inl e \<Rightarrow> (s, Some e)
           | Inr s' \<Rightarrow> each_probe body rest s'))"

definition get_probe_data ::
  "('s \<Rightarrow> val \<Rightarrow> error + 's) \<Rightarrow> val \<Rightarrow> 's \<Rightarrow> 's \<times> error option" where
  "get_probe_data body results s =
     (case iter results of
        Inl e \<Rightarrow> (s, Some e)
      | Inr probes \<Rightarrow> each_probe body probes s)"

datatype outcome = Finished | Raised error

text \<open>One turn of \<^verbatim>\<open>while True\<close>: it ends the generator or asks for the page at \<^verbatim>\<open>url\<close>.\<close>

datatype 's turn = Stop 's outcome | Next 's val

definition page :: "('s \<Rightarrow> val \<Rightarrow> error + 's) \<Rightarrow> response \<Rightarrow> 's \<Rightarrow> 's turn" where
  "page body r s =
     (case r of
        Unreachable \<Rightarrow> Stop s (Raised ConnectionError)
      | Response status_code json \<Rightarrow>
     (case (if \<not> status_code = codes_ok then raise_for_status status_code else Inr ()) of
        Inl e \<Rightarrow> Stop s (Raised e)
      | Inr _ \<Rightarrow>
     (case json of
        None \<Rightarrow> Stop s (Raised JSONDecodeError)
      | Some data \<Rightarrow>
     (case getitem data ''count'' of
        Inl e \<Rightarrow> Stop s (Raised e)
      | Inr count \<Rightarrow>
     (case getitem data ''next'' of
        Inl e \<Rightarrow> Stop s (Raised e)
      | Inr url \<Rightarrow>
     if \<not> truthy count then Stop s Finished
     else
     (case getitem data ''results'' of
        Inl e \<Rightarrow> Stop s (Raised e)
      | Inr results \<Rightarrow>
     (case get_probe_data body results s of
        (s', Some e) \<Rightarrow> Stop s' (Raised e)
      | (s', None) \<Rightarrow>
     if \<not> truthy url then Stop s' Finished
     else Next s' url)))))))"

record 's run =
  final :: 's
  requests :: "request list"
  ended :: outcome

text \<open>
  The loop of \<^verbatim>\<open>get_probes\<close>, entered with the response to the last request of
  \<open>reqs\<close>. Nothing in it bounds the number of pages, so it is a partial function: \<open>None\<close>
  is the run that goes on for ever.
\<close>

partial_function (option) pages ::
  "server \<Rightarrow> ('s \<Rightarrow> val \<Rightarrow> error + 's) \<Rightarrow> request list \<Rightarrow> response \<Rightarrow> 's \<Rightarrow> 's run option"
where
  "pages srv body reqs r s =
     (case page body r s of
        Stop s' out \<Rightarrow> Some \<lparr>final = s', requests = reqs, ended = out\<rparr>
      | Next s' url \<Rightarrow>
          pages srv body (reqs @ [Get url []]) (srv (reqs @ [Get url []])) s')"

declare pages.simps [code]

definition first_request :: request where
  "first_request = Get (VStr API_PROBES) [(''page_size'', VInt (int PAGE_SZ)), (''sort'', VStr ''id'')]"

definition get_probes :: "server \<Rightarrow> ('s \<Rightarrow> val \<Rightarrow> error + 's) \<Rightarrow> 's \<Rightarrow> 's run option" where
  "get_probes srv body s = pages srv body [first_request] (srv [first_request]) s"

text \<open>A consumer that keeps every probe it is given: \<^verbatim>\<open>list(get_probes())\<close>.\<close>

definition collect :: "val list \<Rightarrow> val \<Rightarrow> error + val list" where
  "collect acc p = Inr (acc @ [p])"

section \<open>The listing\<close>

text \<open>
  \<^verbatim>\<open>main\<close> writes to the output file and prints progress; its state is what has been
  written, what has been printed and the counter \<^verbatim>\<open>n\<close>.
\<close>

record listing =
  written :: "string list"
  printed :: "string list"
  n :: nat

definition header :: string where
  "header =
     ''#<id>,<asn_v4>,<address_v4>,<pfx_v4>'' @
     '',<asn_v6>,<address_v6>,<pfx_v6>'' @
     '',<country>,<lat>,<lng>'' @
     '',<anchor?>,<public?>,<last_connect>'' @
     '',<status>,<status_ts>,<tags>'' @ [CHR 0x0A]"

definition write_row :: "interpreter \<Rightarrow> listing \<Rightarrow> val \<Rightarrow> error + listing" where
  "write_row rt st p =
     bindE (row rt p) (\<lambda>line.
       let st = st\<lparr>written := written st @ [line @ [CHR 0x0A]]\<rparr>;
           st = st\<lparr>n := n st + 1\<rparr>
       in Inr (if n st mod PAGE_SZ = 0
               then st\<lparr>printed := printed st @ [''- #probes: '' @ digits (n st)]\<rparr>
               else st))"

definition main :: "interpreter \<Rightarrow> server \<Rightarrow> listing run option" where
  "main rt srv =
     map_option
       (\<lambda>r. case ended r of
              Finished \<Rightarrow>
                r\<lparr>final := (final r)\<lparr>printed := printed (final r) @
                     [''- fetched details of '' @ digits (n (final r)) @ '' probes.'']\<rparr>\<rparr>
            | Raised e \<Rightarrow> r)
       (get_probes srv (write_row rt) \<lparr>written = [header], printed = [], n = 0\<rparr>)"

section \<open>Notions used in the statements\<close>

text \<open>
  The value an attribute holds after the two loops at the head of a constructor: what the
  raw mapping \<open>d\<close> carries under \<open>k\<close>, and the empty string when it carries nothing.
\<close>

definition field :: "(string \<times> val) list \<Rightarrow> string \<Rightarrow> val" where
  "field d k = (case dict_get d k of Some v \<Rightarrow> v | None \<Rightarrow> VStr [])"

text \<open>An instance of class \<open>c\<close> all of whose slots are assigned.\<close>

fun instance_of :: "cls \<Rightarrow> val \<Rightarrow> bool" where
  "instance_of c (VObj c' a) = (c' = c \<and> map fst a = slots c)"
| "instance_of c _ = False"

definition default_status :: val where
  "default_status = VObj Status [(''since'', VStr []), (''id'', VStr []), (''name'', VStr [])]"

definition point_obj :: "val \<Rightarrow> val \<Rightarrow> val" where
  "point_obj x y = VObj Point [(''x'', x), (''y'', y), (''lat'', y), (''lng'', x)]"

definition default_geometry :: val where
  "default_geometry =
     VObj Geometry [(''coordinates'', point_obj (VFloat (Fin (- 1111))) (VFloat (Fin (- 1111)))),
                    (''type'', VStr [])]"

text \<open>The two \<^verbatim>\<open>if\<close> statements of \<^verbatim>\<open>Probe.__init__\<close>, on the value of the attribute.\<close>

definition build_status :: "val \<Rightarrow> error + val" where
  "build_status v = (if truthy v then call_kwargs Status_init v else Status_init [])"

definition build_geometry :: "val \<Rightarrow> error + val" where
  "build_geometry v = (if truthy v then call_kwargs Geometry_init v else Geometry_init [])"

text \<open>A probe whose plain attributes are those of the raw mapping \<open>d\<close>.\<close>

definition probe_obj :: "(string \<times> val) list \<Rightarrow> val \<Rightarrow> val \<Rightarrow> val \<Rightarrow> val" where
  "probe_obj d status geometry tags =
     VObj Probe
       [(''address_v4'', field d ''address_v4''), (''address_v6'', field d ''address_v6''),
        (''asn_v4'', field d ''asn_v4''), (''asn_v6'', field d ''asn_v6''),
        (''country_code'', field d ''country_code''), (''description'', field d ''description''),
        (''first_connected'', field d ''first_connected''), (''geometry'', geometry),
        (''id'', field d ''id''), (''is_anchor'', field d ''is_anchor''),
        (''is_public'', field d ''is_public''), (''last_connected'', field d ''last_connected''),
        (''prefix_v4'', field d ''prefix_v4''), (''prefix_v6'', field d ''prefix_v6''),
        (''status'', status), (''status_since'', field d ''status_since''),
        (''tags'', tags), (''type'', field d ''type'')]"

text \<open>The fields of a line, as \<^verbatim>\<open>line.split(c)\<close> gives them.\<close>

fun split_on :: "char \<Rightarrow> string \<Rightarrow> string list" where
  "split_on c [] = [[]]"
| "split_on c (x # xs) =
     (if x = c then [] # split_on c xs
      else (case split_on c xs of f # fs \<Rightarrow> (x # f) # fs | [] \<Rightarrow> [[x]]))"

text \<open>
  The sixteen texts of a row, as the specification lists them: the plain attributes are
  those of the raw mapping \<open>d\<close>, and latitude, longitude, the name of the status and the
  slugs are given.
\<close>

definition row_fields ::
  "interpreter \<Rightarrow> (string \<times> val) list \<Rightarrow> val \<Rightarrow> val \<Rightarrow> string \<Rightarrow> string list \<Rightarrow> string list" where
  "row_fields rt d lat lng name slugs =
     [str rt (field d ''id''), str rt (field d ''asn_v4''),
      str rt (field d ''address_v4''), str rt (field d ''prefix_v4''),
      str rt (field d ''asn_v6''), str rt (field d ''address_v6''),
      str rt (field d ''prefix_v6''), str rt (field d ''country_code''),
      str rt lat, str rt lng,
      (if truthy (field d ''is_anchor'') then ''1'' else ''0''),
      (if truthy (field d ''is_public'') then ''1'' else ''0''),
      str rt (field d ''last_connected''), str_upper rt name,
      str rt (field d ''status_since''), join TAG_SEP slugs]"

subsection \<open>Sample records\<close>

text \<open>An interpreter for data whose texts are all computed here.\<close>

definition no_interpreter :: interpreter where
  "no_interpreter = \<lparr>py_repr = (\<lambda>v. []), py_upper = (\<lambda>s. [])\<rparr>"


definition rec_bare :: "(string \<times> val) list" where
  "rec_bare = [(''id'', VInt 2)]"

definition rec_no_coordinates :: "(string \<times> val) list" where
  "rec_no_coordinates =
     [(''id'', VInt 3), (''geometry'', VDict [(''type'', VStr ''Point''), (''coordinates'', VList [])])]"

definition rec_type_only :: "(string \<times> val) list" where
  "rec_type_only = [(''id'', VInt 6), (''geometry'', VDict [(''type'', VStr ''Point'')])]"

definition rec_full :: "(string \<times> val) list" where
  "rec_full =
     [(''id'', VInt 1), (''asn_v4'', VInt 3333), (''country_code'', VStr ''NL''),
      (''is_anchor'', VBool False), (''is_public'', VBool True),
      (''status'', VDict [(''since'', VStr ''2016-05-23T00:42:00Z''), (''id'', VInt 1),
                          (''name'', VStr ''Connected'')]),
      (''geometry'', VDict [(''type'', VStr ''Point''),
                            (''coordinates'', VList [VFloat (Fin 10), VFloat (Fin 20)])]),
      (''tags'', VList [VDict [(''name'', VStr ''a''), (''slug'', VStr ''a1'')],
                        VDict [(''name'', VStr ''b''), (''slug'', VStr ''b2'')]])]"

definition rec_unknown_key :: "(string \<times> val) list" where
  "rec_unknown_key = [(''id'', VInt 1), (''firmware_version'', VInt 4790)]"

definition rec_three_coordinates :: "(string \<times> val) list" where
  "rec_three_coordinates =
     [(''id'', VInt 4),
      (''geometry'', VDict [(''coordinates'', VList [VFloat (Fin 10), VFloat (Fin 20), VFloat (Fin 30)])])]"

definition rec_bad_tag :: "(string \<times> val) list" where
  "rec_bad_tag =
     [(''id'', VInt 5),
      (''tags'', VList [VDict [(''name'', VStr ''a''), (''slug'', VStr ''a1'')],
                        VDict [(''name'', VStr ''b'')]])]"

definition rec_bad_tag_three_coordinates :: "(string \<times> val) list" where
  "rec_bad_tag_three_coordinates =
     [(''geometry'', VDict [(''coordinates'', VList [VFloat (Fin 1), VFloat (Fin 2), VFloat (Fin 3)])]),
      (''tags'', VList [VDict [(''name'', VStr ''a'')]])]"

definition probe_bare :: val where
  "probe_bare = probe_obj rec_bare default_status default_geometry (VList [])"

definition probe_no_coordinates :: val where
  "probe_no_coordinates =
     probe_obj rec_no_coordinates default_status
       (VObj Geometry [(''coordinates'', point_obj (VFloat (Fin (- 1111))) (VFloat (Fin (- 1111)))),
                       (''type'', VStr ''Point'')])
       (VList [])"

definition probe_type_only :: val where
  "probe_type_only =
     probe_obj rec_type_only default_status
       (VObj Geometry [(''coordinates'', point_obj (VFloat (Fin (- 1111))) (VFloat (Fin (- 1111)))),
                       (''type'', VStr ''Point'')])
       (VList [])"

definition probe_full :: val where
  "probe_full =
     probe_obj rec_full
       (VObj Status [(''since'', VStr ''2016-05-23T00:42:00Z''), (''id'', VInt 1),
                     (''name'', VStr ''Connected'')])
       (VObj Geometry [(''coordinates'', point_obj (VFloat (Fin 10)) (VFloat (Fin 20))),
                       (''type'', VStr ''Point'')])
       (VList [Tag_init (VStr ''a'') (VStr ''a1''), Tag_init (VStr ''b'') (VStr ''b2'')])"

subsection \<open>Sample servers\<close>

definition page_of :: "val \<Rightarrow> val \<Rightarrow> val list \<Rightarrow> val" where
  "page_of count url results =
     VDict [(''count'', count), (''next'', url), (''results'', VList results)]"

definition url2 :: val where
  "url2 = VStr ''https://atlas.ripe.net/api/v2/probes/?page=2''"

definition url3 :: val where
  "url3 = VStr ''https://atlas.ripe.net/api/v2/probes/?page=3''"

text \<open>
  A catalogue of three pages of one record each; the third page reports \<open>count3\<close> as
  its count and has no next page.
\<close>

definition three_pages :: "val \<Rightarrow> server" where
  "three_pages count3 reqs =
     (if reqs = [first_request] then
        Response 200 (Some (page_of (VInt 3) url2 [VDict rec_bare]))
      else if reqs = [first_request, Get url2 []] then
        Response 200 (Some (page_of (VInt 3) url3 [VDict rec_full]))
      else if reqs = [first_request, Get url2 [], Get url3 []] then
        Response 200 (Some (page_of count3 VNone [VDict rec_no_coordinates]))
      else Unreachable)"

text \<open>A page whose second record has a tag without \<^verbatim>\<open>slug\<close>.\<close>

definition page_bad_tag :: val where
  "page_bad_tag =
     VDict [(''count'', VInt 3), (''next'', VNone),
            (''results'', VList [VDict rec_bare, VDict rec_bad_tag, VDict rec_full])]"

text \<open>A server that cannot be reached.\<close>

definition nobody :: server where
  "nobody reqs = Unreachable"

text \<open>A server that answers every request with status 302 and a page of one record.\<close>

definition found_elsewhere :: server where
  "found_elsewhere reqs = Response 302 (Some (page_of (VInt 1) VNone [VDict rec_bare]))"

section \<open>Auxiliary facts\<close>


lemma bindE_Inr [simp]: "bindE (Inr x) f = f x"
  by (simp add: bindE_def)

lemma bindE_Inl [simp]: "bindE (Inl e) f = Inl e"
  by (simp add: bindE_def)

lemma bindE_eq_Inr: "bindE m f = Inr y \<longleftrightarrow> (\<exists>x. m = Inr x \<and> f x = Inr y)"
  by (cases m) auto

lemma stores_distinct:
  "distinct (map fst a) \<Longrightarrow> distinct (map fst (fold (\<lambda>(k, v). AList.update k v) kvs a))"
  by (induction kvs arbitrary: a) (auto simp: AList.distinct_update)

lemma stores_keys:
  "fst ` set kvs \<subseteq> fst ` set a \<Longrightarrow> map fst (fold (\<lambda>(k, v). AList.update k v) kvs a) = map fst a"
proof (induction kvs arbitrary: a)
  case Nil
  then show ?case by simp
next
  case (Cons kv kvs)
  obtain k v where kv: "kv = (k, v)" by (cases kv)
  from Cons.prems have k: "k \<in> fst ` set a" and rest: "fst ` set kvs \<subseteq> fst ` set a"
    by (auto simp: kv)
  from k have same: "map fst (AList.update k v a) = map fst a"
    by (simp add: AList.update_keys)
  from rest have "fst ` set kvs \<subseteq> fst ` set (AList.update k v a)"
    by (auto simp: AList.dom_update)
  from Cons.IH[OF this] same show ?case by (simp add: kv)
qed

lemma stores_map_of:
  "distinct (map fst kvs) \<Longrightarrow>
   map_of (fold (\<lambda>(k, v). AList.update k v) kvs a) k =
     (case map_of kvs k of Some v \<Rightarrow> Some v | None \<Rightarrow> map_of a k)"
proof (induction kvs arbitrary: a)
  case Nil
  then show ?case by simp
next
  case (Cons kv kvs)
  obtain k' v' where kv: "kv = (k', v')" by (cases kv)
  from Cons.prems have "map_of kvs k' = None"
    by (auto simp: kv map_of_eq_None_iff)
  with Cons show ?case
    by (auto simp: kv AList.update_conv' split: option.splits)
qed

lemma dict_items_distinct: "distinct (map fst (dict_items d))"
  by (simp add: dict_items_def stores_distinct)

lemma alist_eqI:
  "map fst a = ks \<Longrightarrow> distinct ks \<Longrightarrow> (\<And>k. k \<in> set ks \<Longrightarrow> map_of a k = Some (f k)) \<Longrightarrow>
   a = map (\<lambda>k. (k, f k)) ks"
proof (induction ks arbitrary: a)
  case Nil
  then show ?case by simp
next
  case (Cons k ks)
  then obtain v a' where a: "a = (k, v) # a'" and fst: "map fst a' = ks"
    by (cases a) auto
  from Cons.prems(3)[of k] have v: "v = f k" by (simp add: a)
  have "map_of a' k' = Some (f k')" if "k' \<in> set ks" for k'
    using Cons.prems(3)[of k'] Cons.prems(2) that by (auto simp: a split: if_splits)
  with Cons.IH[OF fst] Cons.prems(2) have "a' = map (\<lambda>k. (k, f k)) ks" by simp
  with a v show ?case by simp
qed

lemma set_all_stores:
  "fst ` set kvs \<subseteq> set (slots c) \<Longrightarrow>
   set_all (VObj c a) kvs = Inr (VObj c (fold (\<lambda>(k, v). AList.update k v) kvs a))"
  by (induction kvs arbitrary: a) auto

lemma set_all_rejects:
  "\<not> fst ` set kvs \<subseteq> set (slots c) \<Longrightarrow>
   set_all (VObj c a) kvs =
     Inl (if ''__class__'' \<in> fst ` set kvs then
            (if hd (filter (\<lambda>k. k \<notin> set (slots c)) (map fst kvs)) = ''__class__''
             then TypeError else AttributeError)
          else AttributeError)"
proof (induction kvs arbitrary: a)
  case Nil
  then show ?case by simp
next
  case (Cons kv kvs)
  obtain k v where kv: "kv = (k, v)" by (cases kv)
  show ?case
  proof (cases "k \<in> set (slots c)")
    case True
    with Cons.prems have "\<not> fst ` set kvs \<subseteq> set (slots c)" by (auto simp: kv)
    from Cons.IH[OF this] True show ?thesis
      by (cases c) (auto simp: kv)
  next
    case False
    then show ?thesis by (auto simp: kv)
  qed
qed

lemma slots_distinct: "distinct (slots c)"
  by (cases c) simp_all

lemma fill_eq: "fill c = Inr (VObj c (map (\<lambda>k. (k, VStr [])) (slots c)))"
  by (cases c) (simp_all add: fill_def)

lemma overwrite:
  assumes "fst ` set kvs \<subseteq> set (slots c)" and "distinct (map fst kvs)"
  shows "bindE (fill c) (\<lambda>self. set_all self kvs) =
         Inr (VObj c (map (\<lambda>k. (k, case map_of kvs k of Some v \<Rightarrow> v | None \<Rightarrow> VStr [])) (slots c)))"
proof -
  let ?a = "map (\<lambda>k. (k, VStr [])) (slots c)"
  let ?b = "fold (\<lambda>(k, v). AList.update k v) kvs ?a"
  have keys: "map fst ?b = slots c"
    using assms(1) by (subst stores_keys) (auto simp: comp_def image_image)
  have "map_of ?b k = Some (case map_of kvs k of Some v \<Rightarrow> v | None \<Rightarrow> VStr [])"
    if "k \<in> set (slots c)" for k
    using that by (simp add: stores_map_of[OF assms(2)] map_of_map_restrict split: option.splits)
  with keys have "?b = map (\<lambda>k. (k, case map_of kvs k of Some v \<Rightarrow> v | None \<Rightarrow> VStr [])) (slots c)"
    by (intro alist_eqI) (auto simp: slots_distinct)
  then show ?thesis
    by (simp add: fill_eq set_all_stores[OF assms(1)])
qed

lemma overwrite_rejects:
  assumes "\<not> fst ` set kvs \<subseteq> set (slots c)"
  shows "bindE (fill c) (\<lambda>self. set_all self kvs) = Inl AttributeError \<or>
         bindE (fill c) (\<lambda>self. set_all self kvs) = Inl TypeError"
  using set_all_rejects[OF assms] by (simp add: fill_eq)


lemma default_fill_overwrite:
  assumes "fst ` set kvs \<subseteq> set (slots c)" and "distinct (map fst kvs)"
  shows "bindE (fill c) (\<lambda>self. bindE (set_all self kvs) F) =
         F (VObj c (map (\<lambda>k. (k, case map_of kvs k of Some v \<Rightarrow> v | None \<Rightarrow> VStr [])) (slots c)))"
proof -
  have "bindE (fill c) (\<lambda>self. bindE (set_all self kvs) F) =
        bindE (bindE (fill c) (\<lambda>self. set_all self kvs)) F"
    by (simp add: fill_eq)
  then show ?thesis
    by (simp add: overwrite[OF assms])
qed

lemma default_fill_rejects:
  assumes "\<not> fst ` set kvs \<subseteq> set (slots c)"
  shows "bindE (fill c) (\<lambda>self. bindE (set_all self kvs) F) = Inl AttributeError \<or>
         bindE (fill c) (\<lambda>self. bindE (set_all self kvs) F) = Inl TypeError"
  using set_all_rejects[OF assms] by (simp add: fill_eq)

lemma Status_init_Nil:
  "Status_init [] = Inr (VObj Status [(''since'', VStr []), (''id'', VStr []), (''name'', VStr [])])"
  by (simp add: Status_init_def fill_def)

lemma Status_init_items:
  assumes "set (dict_keys d) \<subseteq> set (slots Status)"
  shows "Status_init (dict_items d) =
         Inr (VObj Status [(''since'', field d ''since''), (''id'', field d ''id''),
                           (''name'', field d ''name'')])"
proof -
  from assms have "fst ` set (dict_items d) \<subseteq> set (slots Status)"
    by (simp add: dict_keys_def)
  from overwrite[OF this dict_items_distinct] show ?thesis
    by (simp add: Status_init_def field_def dict_get_def)
qed

lemma Geometry_init_Nil:
  "Geometry_init [] =
     Inr (VObj Geometry
       [(''coordinates'', VObj Point [(''x'', VFloat (Fin (- 1111))), (''y'', VFloat (Fin (- 1111))),
                                      (''lat'', VFloat (Fin (- 1111))), (''lng'', VFloat (Fin (- 1111)))]),
        (''type'', VStr [])])"
  by (simp add: Geometry_init_def fill_def)

lemma setattr_slot:
  "k \<in> set (slots c) \<Longrightarrow> setattr (VObj c a) k = (\<lambda>v. Inr (VObj c (AList.update k v a)))"
  by (rule ext) simp

lemma Geometry_init_items:
  assumes "set (dict_keys d) \<subseteq> set (slots Geometry)"
  shows "Geometry_init (dict_items d) =
         bindE (if truthy (field d ''coordinates'')
                then bindE (iter (field d ''coordinates'')) Point_init
                else Point_init [VFloat (Fin (- 1111)), VFloat (Fin (- 1111))])
           (\<lambda>point. Inr (VObj Geometry [(''coordinates'', point), (''type'', field d ''type'')]))"
proof -
  from assms have "fst ` set (dict_items d) \<subseteq> set (slots Geometry)"
    by (simp add: dict_keys_def)
  note step = default_fill_overwrite[OF this dict_items_distinct]
  show ?thesis
    unfolding Geometry_init_def step
    by (simp add: field_def dict_get_def setattr_slot)
qed

lemma Probe_init_items:
  assumes "set (dict_keys d) \<subseteq> set (slots Probe)"
  shows "Probe_init (dict_items d) =
         bindE (if truthy (field d ''status'') then call_kwargs Status_init (field d ''status'')
                else Status_init []) (\<lambda>status.
         bindE (if truthy (field d ''geometry'') then call_kwargs Geometry_init (field d ''geometry'')
                else Geometry_init []) (\<lambda>geometry.
         bindE (iter (field d ''tags'')) (\<lambda>ts.
         bindE (mapE make_tag ts) (\<lambda>tags.
         Inr (probe_obj d status geometry (VList tags))))))"
proof -
  from assms have "fst ` set (dict_items d) \<subseteq> set (slots Probe)"
    by (simp add: dict_keys_def)
  note step = default_fill_overwrite[OF this dict_items_distinct]
  show ?thesis
    unfolding Probe_init_def step
    by (simp add: probe_obj_def field_def dict_get_def)
qed




lemma field_nonempty: "field d k \<noteq> VStr [] \<Longrightarrow> d \<noteq> []"
  by (auto simp: field_def dict_get_def dict_items_def)

lemma self_not_slot: "set (dict_keys d) \<subseteq> set (slots c) \<Longrightarrow> ''self'' \<notin> set (dict_keys d)"
  by (cases c) auto

lemma call_kwargs_Inr:
  "call_kwargs init v = Inr y \<Longrightarrow> \<exists>d. v = VDict d \<and> ''self'' \<notin> set (dict_keys d) \<and> init (dict_items d) = Inr y"
  by (cases v) (auto split: if_splits)

lemma Status_init_rejects:
  "\<not> set (dict_keys d) \<subseteq> set (slots Status) \<Longrightarrow>
   Status_init (dict_items d) = Inl AttributeError \<or> Status_init (dict_items d) = Inl TypeError"
  using overwrite_rejects[of "dict_items d" Status] by (simp add: Status_init_def dict_keys_def)

lemma Geometry_init_rejects:
  "\<not> set (dict_keys d) \<subseteq> set (slots Geometry) \<Longrightarrow>
   Geometry_init (dict_items d) = Inl AttributeError \<or> Geometry_init (dict_items d) = Inl TypeError"
  using default_fill_rejects[of "dict_items d" Geometry] by (simp add: Geometry_init_def dict_keys_def)

lemma Probe_init_rejects:
  "\<not> set (dict_keys d) \<subseteq> set (slots Probe) \<Longrightarrow>
   Probe_init (dict_items d) = Inl AttributeError \<or> Probe_init (dict_items d) = Inl TypeError"
  using default_fill_rejects[of "dict_items d" Probe] by (simp add: Probe_init_def dict_keys_def)

lemma build_status_falsy: "\<not> truthy v \<Longrightarrow> build_status v = Inr default_status"
  by (simp add: build_status_def Status_init_Nil default_status_def)

lemma build_status_Inr:
  assumes "build_status v = Inr status"
  shows "instance_of Status status"
proof (cases "truthy v")
  case False
  with assms show ?thesis by (auto simp: build_status_falsy default_status_def)
next
  case True
  with assms obtain d where d: "v = VDict d" "Status_init (dict_items d) = Inr status"
    by (auto simp: build_status_def dest: call_kwargs_Inr)
  have "set (dict_keys d) \<subseteq> set (slots Status)"
  proof (rule ccontr)
    assume "\<not> ?thesis"
    from Status_init_rejects[OF this] d(2) show False by simp
  qed
  from Status_init_items[OF this] d show ?thesis by simp
qed

lemma build_geometry_falsy:
  "\<not> truthy v \<Longrightarrow>
   build_geometry v =
     Inr (VObj Geometry [(''coordinates'', point_obj (VFloat (Fin (- 1111))) (VFloat (Fin (- 1111)))),
                         (''type'', VStr [])])"
  by (simp add: build_geometry_def Geometry_init_Nil point_obj_def)

lemma Point_init_Inr: "Point_init cs = Inr pt \<Longrightarrow> \<exists>x y. cs = [x, y] \<and> pt = point_obj x y"
  by (cases cs rule: Point_init.cases) (auto simp: point_obj_def)

lemma build_geometry_dict:
  assumes "build_geometry (VDict g) = Inr geometry" and "g \<noteq> []"
  shows "set (dict_keys g) \<subseteq> set (slots Geometry) \<and>
         (\<exists>point. (if truthy (field g ''coordinates'')
                    then bindE (iter (field g ''coordinates'')) Point_init
                    else Point_init [VFloat (Fin (- 1111)), VFloat (Fin (- 1111))]) = Inr point \<and>
            geometry = VObj Geometry [(''coordinates'', point), (''type'', field g ''type'')])"
proof -
  from assms have init: "Geometry_init (dict_items g) = Inr geometry"
    by (auto simp: build_geometry_def split: if_splits)
  have keys: "set (dict_keys g) \<subseteq> set (slots Geometry)"
  proof (rule ccontr)
    assume "\<not> ?thesis"
    from Geometry_init_rejects[OF this] init show False by simp
  qed
  from init obtain point where
    "(if truthy (field g ''coordinates'')
      then bindE (iter (field g ''coordinates'')) Point_init
      else Point_init [VFloat (Fin (- 1111)), VFloat (Fin (- 1111))]) = Inr point"
    "geometry = VObj Geometry [(''coordinates'', point), (''type'', field g ''type'')]"
    unfolding Geometry_init_items[OF keys] bindE_eq_Inr by blast
  with keys show ?thesis by blast
qed

lemma build_geometry_Inr:
  assumes "build_geometry v = Inr geometry"
  shows "\<exists>x y ty. geometry = VObj Geometry [(''coordinates'', point_obj x y), (''type'', ty)]"
proof (cases "truthy v")
  case False
  with assms show ?thesis by (auto simp: build_geometry_falsy)
next
  case True
  with assms obtain g where g: "v = VDict g" 
    by (auto simp: build_geometry_def dest: call_kwargs_Inr)
  with True have "g \<noteq> []" by simp
  from build_geometry_dict[OF assms[unfolded g] this] obtain point where
    pt: "(if truthy (field g ''coordinates'')
          then bindE (iter (field g ''coordinates'')) Point_init
          else Point_init [VFloat (Fin (- 1111)), VFloat (Fin (- 1111))]) = Inr point"
    and geo: "geometry = VObj Geometry [(''coordinates'', point), (''type'', field g ''type'')]"
    by blast
  have "\<exists>cs. Point_init cs = Inr point"
  proof (cases "truthy (field g ''coordinates'')")
    case True
    with pt show ?thesis by (simp add: bindE_eq_Inr) blast
  next
    case False
    with pt show ?thesis by (simp only: if_False) blast
  qed
  then obtain x y where "point = point_obj x y"
    by (blast dest: Point_init_Inr)
  with geo show ?thesis by blast
qed

lemma normalise_accepts:
  assumes "set (dict_keys d) \<subseteq> set (slots Probe)"
  shows "normalise (VDict d) =
         bindE (build_status (field d ''status'')) (\<lambda>status.
         bindE (build_geometry (field d ''geometry'')) (\<lambda>geometry.
         bindE (iter (field d ''tags'')) (\<lambda>ts.
         bindE (mapE make_tag ts) (\<lambda>tags.
         Inr (probe_obj d status geometry (VList tags))))))"
  using self_not_slot[OF assms]
  by (simp add: normalise_def Probe_init_items[OF assms] build_status_def build_geometry_def)

lemma normalise_rejects:
  assumes "\<not> set (dict_keys d) \<subseteq> set (slots Probe)"
  shows "normalise (VDict d) = Inl AttributeError \<or> normalise (VDict d) = Inl TypeError"
  using Probe_init_rejects[OF assms] by (auto simp: normalise_def)

lemma normalise_Inr:
  assumes "normalise (VDict d) = Inr p"
  shows "set (dict_keys d) \<subseteq> set (slots Probe) \<and>
         (\<exists>status geometry ts tags.
            build_status (field d ''status'') = Inr status \<and>
            build_geometry (field d ''geometry'') = Inr geometry \<and>
            iter (field d ''tags'') = Inr ts \<and>
            mapE make_tag ts = Inr tags \<and>
            p = probe_obj d status geometry (VList tags))"
proof -
  have keys: "set (dict_keys d) \<subseteq> set (slots Probe)"
  proof (rule ccontr)
    assume "\<not> ?thesis"
    from normalise_rejects[OF this] assms show False by simp
  qed
  from assms obtain status geometry ts tags where
    "build_status (field d ''status'') = Inr status"
    "build_geometry (field d ''geometry'') = Inr geometry"
    "iter (field d ''tags'') = Inr ts"
    "mapE make_tag ts = Inr tags"
    "p = probe_obj d status geometry (VList tags)"
    unfolding normalise_accepts[OF keys] bindE_eq_Inr by blast
  with keys show ?thesis by blast
qed

lemma make_tag_Inr: "make_tag t = Inr tag \<Longrightarrow> instance_of Tag tag"
  by (auto simp: make_tag_def bindE_eq_Inr Tag_init_def)

lemma mapE_Inr_all: "mapE f xs = Inr ys \<Longrightarrow> (\<And>x y. f x = Inr y \<Longrightarrow> P y) \<Longrightarrow> list_all P ys"
  by (induction xs arbitrary: ys) (auto simp: bindE_eq_Inr)



section \<open>Properties of the normaliser\<close>

text \<open>
  The sample records normalise to the sample probes.
\<close>

lemma normalise_rec_bare: "normalise (VDict rec_bare) = Inr probe_bare"
  by code_simp

lemma normalise_rec_no_coordinates:
  "normalise (VDict rec_no_coordinates) = Inr probe_no_coordinates"
  by code_simp

lemma normalise_rec_full: "normalise (VDict rec_full) = Inr probe_full"
  by code_simp

lemma normalise_rec_type_only: "normalise (VDict rec_type_only) = Inr probe_type_only"
  by code_simp

lemma normalise_total:
  assumes "set (dict_keys d) \<subseteq> set (slots Probe)"
    and "build_status (field d ''status'') = Inr status"
    and "build_geometry (field d ''geometry'') = Inr geometry"
    and "iter (field d ''tags'') = Inr ts"
    and "mapE make_tag ts = Inr tags"
  shows "normalise (VDict d) = Inr (probe_obj d status geometry (VList tags))"
  unfolding normalise_accepts[OF assms(1)] by (simp add: assms(2-5))

lemma build_geometry_sentinel:
  assumes "set (dict_keys g) \<subseteq> set (slots Geometry)" and "\<not> truthy (field g ''coordinates'')"
  shows "build_geometry (VDict g) =
         Inr (VObj Geometry [(''coordinates'', point_obj (VFloat (Fin (- 1111))) (VFloat (Fin (- 1111)))),
                             (''type'', field g ''type'')])"
proof (cases "g = []")
  case True
  then show ?thesis
    by (simp add: build_geometry_falsy default_geometry_def field_def dict_get_def dict_items_def)
next
  case False
  with self_not_slot[OF assms(1)] assms(2) show ?thesis
    by (simp add: build_geometry_def Geometry_init_items[OF assms(1)] point_obj_def)
qed

lemma build_geometry_point:
  assumes "set (dict_keys g) \<subseteq> set (slots Geometry)"
    and "field g ''coordinates'' = VList [lon, lat]"
  shows "build_geometry (VDict g) =
         Inr (VObj Geometry [(''coordinates'', point_obj lon lat), (''type'', field g ''type'')])"
proof -
  from assms(2) have "field g ''coordinates'' \<noteq> VStr []" by simp
  then have "g \<noteq> []" by (rule field_nonempty)
  with self_not_slot[OF assms(1)] assms(2) show ?thesis
    by (simp add: build_geometry_def Geometry_init_items[OF assms(1)] point_obj_def)
qed

lemma build_geometry_pair:
  assumes "build_geometry (VDict g) = Inr geometry"
    and "field g ''coordinates'' = VList [lon, lat]"
  shows "geometry = VObj Geometry [(''coordinates'', point_obj lon lat), (''type'', field g ''type'')]"
proof -
  from assms(2) have "field g ''coordinates'' \<noteq> VStr []" by simp
  then have "g \<noteq> []" by (rule field_nonempty)
  from build_geometry_dict[OF assms(1) this] assms(2) show ?thesis
    by (auto simp: point_obj_def)
qed

text \<open>
  Claim C7. Take a raw record that has no geometry (the key is absent, or its value is
  empty), or whose geometry mapping has absent or empty \<^verbatim>\<open>coordinates\<close>; an absent key
  is the case where \<open>field\<close> gives the empty string. Then every probe that normalisation
  returns for it has the sentinel point as the coordinates of its geometry: \<^verbatim>\<open>x\<close>,
  \<^verbatim>\<open>y\<close>, \<^verbatim>\<open>lat\<close> and \<^verbatim>\<open>lng\<close> are all \<open>-1111.0\<close>. The case is recovered, not failed:
  when the keys of the geometry mapping are slots, the geometry is constructed, with the
  sentinel point; and when moreover the keys of the record are slots and its status and
  tags are constructed, normalisation returns a probe.
\<close>

theorem missing_coordinates_give_sentinel:
  assumes "\<not> truthy (field d ''geometry'') \<or>
           (\<exists>g. field d ''geometry'' = VDict g \<and> \<not> truthy (field g ''coordinates''))"
  shows "(\<forall>p. normalise (VDict d) = Inr p \<longrightarrow>
            getpath p [''geometry'', ''coordinates''] =
              Inr (VObj Point [(''x'', VFloat (Fin (- 1111))), (''y'', VFloat (Fin (- 1111))),
                               (''lat'', VFloat (Fin (- 1111))), (''lng'', VFloat (Fin (- 1111)))])) \<and>
         ((\<forall>g. field d ''geometry'' = VDict g \<longrightarrow> set (dict_keys g) \<subseteq> set (slots Geometry)) \<longrightarrow>
            (\<exists>geometry.
               build_geometry (field d ''geometry'') = Inr geometry \<and>
               getattr geometry ''coordinates'' =
                 Inr (VObj Point [(''x'', VFloat (Fin (- 1111))), (''y'', VFloat (Fin (- 1111))),
                                  (''lat'', VFloat (Fin (- 1111))), (''lng'', VFloat (Fin (- 1111)))])) \<and>
            (set (dict_keys d) \<subseteq> set (slots Probe) \<and>
             (\<exists>status. build_status (field d ''status'') = Inr status) \<and>
             (\<exists>ts tags. iter (field d ''tags'') = Inr ts \<and> mapE make_tag ts = Inr tags) \<longrightarrow>
               (\<exists>p. normalise (VDict d) = Inr p \<and>
                  getpath p [''geometry'', ''coordinates''] =
                    Inr (VObj Point [(''x'', VFloat (Fin (- 1111))), (''y'', VFloat (Fin (- 1111))),
                                     (''lat'', VFloat (Fin (- 1111))), (''lng'', VFloat (Fin (- 1111)))]))))"
proof -
  let ?sentinel = "point_obj (VFloat (Fin (- 1111))) (VFloat (Fin (- 1111)))"
  have sentinel: "?sentinel = VObj Point [(''x'', VFloat (Fin (- 1111))), (''y'', VFloat (Fin (- 1111))),
                                  (''lat'', VFloat (Fin (- 1111))), (''lng'', VFloat (Fin (- 1111)))]"
    by (simp add: point_obj_def)
  have built: "\<exists>ty. geometry = VObj Geometry [(''coordinates'', ?sentinel), (''type'', ty)]"
    if geo: "build_geometry (field d ''geometry'') = Inr geometry" for geometry
  proof (cases "truthy (field d ''geometry'')")
    case False
    with geo show ?thesis by (auto simp: build_geometry_falsy default_geometry_def)
  next
    case True
    with assms obtain g where g: "field d ''geometry'' = VDict g"
      and empty: "\<not> truthy (field g ''coordinates'')"
      by blast
    from True g have "g \<noteq> []" by simp
    from build_geometry_dict[OF geo[unfolded g] this] empty show ?thesis
      by (auto simp: point_obj_def)
  qed
  have 1: "getpath p [''geometry'', ''coordinates''] = Inr ?sentinel"
    if "normalise (VDict d) = Inr p" for p
  proof -
    from normalise_Inr[OF that] obtain status geometry tags where
      geo: "build_geometry (field d ''geometry'') = Inr geometry"
      and p: "p = probe_obj d status geometry tags"
      by blast
    from built[OF geo] p show ?thesis
      by (auto simp: probe_obj_def)
  qed
  have 2: "\<exists>ty. build_geometry (field d ''geometry'') =
              Inr (VObj Geometry [(''coordinates'', ?sentinel), (''type'', ty)])"
    if keys: "\<forall>g. field d ''geometry'' = VDict g \<longrightarrow> set (dict_keys g) \<subseteq> set (slots Geometry)"
  proof (cases "truthy (field d ''geometry'')")
    case False
    then show ?thesis by (auto simp: build_geometry_falsy default_geometry_def)
  next
    case True
    with assms obtain g where g: "field d ''geometry'' = VDict g"
      and empty: "\<not> truthy (field g ''coordinates'')"
      by blast
    from keys g have "set (dict_keys g) \<subseteq> set (slots Geometry)" by blast
    from build_geometry_sentinel[OF this empty] g show ?thesis by auto
  qed
  have 3: "\<exists>p. normalise (VDict d) = Inr p \<and> getpath p [''geometry'', ''coordinates''] = Inr ?sentinel"
    if keys: "\<forall>g. field d ''geometry'' = VDict g \<longrightarrow> set (dict_keys g) \<subseteq> set (slots Geometry)"
      and d: "set (dict_keys d) \<subseteq> set (slots Probe)"
      and st: "build_status (field d ''status'') = Inr status"
      and ts: "iter (field d ''tags'') = Inr ts" "mapE make_tag ts = Inr tags"
    for status ts tags
  proof -
    from 2[OF keys] obtain ty where
      geo: "build_geometry (field d ''geometry'') =
              Inr (VObj Geometry [(''coordinates'', ?sentinel), (''type'', ty)])"
      by blast
    from normalise_total[OF d st geo ts] show ?thesis
      by (auto simp: probe_obj_def)
  qed
  have 4: "\<exists>geometry. build_geometry (field d ''geometry'') = Inr geometry \<and>
              getattr geometry ''coordinates'' = Inr ?sentinel"
    if keys: "\<forall>g. field d ''geometry'' = VDict g \<longrightarrow> set (dict_keys g) \<subseteq> set (slots Geometry)"
    using 2[OF that] by auto
  from 1 4 3 show ?thesis
    unfolding sentinel by blast
qed

theorem missing_coordinates_give_sentinel_witness:
  "normalise (VDict rec_bare) = Inr probe_bare \<and>
   getpath probe_bare [''geometry'', ''coordinates''] =
     Inr (VObj Point [(''x'', VFloat (Fin (- 1111))), (''y'', VFloat (Fin (- 1111))),
                      (''lat'', VFloat (Fin (- 1111))), (''lng'', VFloat (Fin (- 1111)))]) \<and>
   normalise (VDict rec_no_coordinates) = Inr probe_no_coordinates \<and>
   getpath probe_no_coordinates [''geometry'', ''coordinates''] =
     Inr (VObj Point [(''x'', VFloat (Fin (- 1111))), (''y'', VFloat (Fin (- 1111))),
                      (''lat'', VFloat (Fin (- 1111))), (''lng'', VFloat (Fin (- 1111)))]) \<and>
   normalise (VDict rec_type_only) = Inr probe_type_only \<and>
   getpath probe_type_only [''geometry'', ''coordinates''] =
     Inr (VObj Point [(''x'', VFloat (Fin (- 1111))), (''y'', VFloat (Fin (- 1111))),
                      (''lat'', VFloat (Fin (- 1111))), (''lng'', VFloat (Fin (- 1111)))]) \<and>
   (\<exists>p. normalise (VDict rec_type_only) = Inr p \<and>
      getpath p [''geometry'', ''coordinates''] =
        Inr (VObj Point [(''x'', VFloat (Fin (- 1111))), (''y'', VFloat (Fin (- 1111))),
                      (''lat'', VFloat (Fin (- 1111))), (''lng'', VFloat (Fin (- 1111)))]))"
proof -
  have bare: "\<not> truthy (field rec_bare ''geometry'') \<or>
      (\<exists>g. field rec_bare ''geometry'' = VDict g \<and> \<not> truthy (field g ''coordinates''))"
    by (rule disjI1) code_simp
  have "field rec_no_coordinates ''geometry'' =
      VDict [(''type'', VStr ''Point''), (''coordinates'', VList [])]"
    "\<not> truthy (field [(''type'', VStr ''Point''), (''coordinates'', VList [])] ''coordinates'')"
    by code_simp+
  then have empty: "\<not> truthy (field rec_no_coordinates ''geometry'') \<or>
      (\<exists>g. field rec_no_coordinates ''geometry'' = VDict g \<and> \<not> truthy (field g ''coordinates''))"
    by blast
  have g: "field rec_type_only ''geometry'' = VDict [(''type'', VStr ''Point'')]"
    and c: "\<not> truthy (field [(''type'', VStr ''Point'')] ''coordinates'')"
    by code_simp+
  then have absent: "\<not> truthy (field rec_type_only ''geometry'') \<or>
      (\<exists>g. field rec_type_only ''geometry'' = VDict g \<and> \<not> truthy (field g ''coordinates''))"
    by blast
  have "set (dict_keys [(''type'', VStr ''Point'')]) \<subseteq> set (slots Geometry)"
    by code_simp
  with g have keys: "\<forall>g. field rec_type_only ''geometry'' = VDict g \<longrightarrow>
      set (dict_keys g) \<subseteq> set (slots Geometry)"
    by simp
  have rest: "set (dict_keys rec_type_only) \<subseteq> set (slots Probe)"
    "build_status (field rec_type_only ''status'') = Inr default_status"
    "iter (field rec_type_only ''tags'') = Inr []"
    "mapE make_tag [] = Inr []"
    by code_simp+
  from missing_coordinates_give_sentinel[OF bare] normalise_rec_bare
  have 1: "getpath probe_bare [''geometry'', ''coordinates''] =
     Inr (VObj Point [(''x'', VFloat (Fin (- 1111))), (''y'', VFloat (Fin (- 1111))),
                      (''lat'', VFloat (Fin (- 1111))), (''lng'', VFloat (Fin (- 1111)))])"
    by blast
  from missing_coordinates_give_sentinel[OF empty] normalise_rec_no_coordinates
  have 2: "getpath probe_no_coordinates [''geometry'', ''coordinates''] =
     Inr (VObj Point [(''x'', VFloat (Fin (- 1111))), (''y'', VFloat (Fin (- 1111))),
                      (''lat'', VFloat (Fin (- 1111))), (''lng'', VFloat (Fin (- 1111)))])"
    by blast
  from missing_coordinates_give_sentinel[OF absent] normalise_rec_type_only
  have 3: "getpath probe_type_only [''geometry'', ''coordinates''] =
     Inr (VObj Point [(''x'', VFloat (Fin (- 1111))), (''y'', VFloat (Fin (- 1111))),
                      (''lat'', VFloat (Fin (- 1111))), (''lng'', VFloat (Fin (- 1111)))])"
    by blast
  from missing_coordinates_give_sentinel[OF absent] keys rest
  have 4: "\<exists>p. normalise (VDict rec_type_only) = Inr p \<and>
      getpath p [''geometry'', ''coordinates''] =
        Inr (VObj Point [(''x'', VFloat (Fin (- 1111))), (''y'', VFloat (Fin (- 1111))),
                      (''lat'', VFloat (Fin (- 1111))), (''lng'', VFloat (Fin (- 1111)))])"
    by blast
  from normalise_rec_bare normalise_rec_no_coordinates normalise_rec_type_only 1 2 3 4
  show ?thesis by blast
qed

text \<open>
  Claim C8. Take a raw record whose geometry mapping carries the two-element list
  \<open>[lon, lat]\<close> as \<^verbatim>\<open>coordinates\<close>. \<^verbatim>\<open>Point(*[lon, lat])\<close> is the point with
  \<^verbatim>\<open>x = lon\<close>, \<^verbatim>\<open>y = lat\<close>, \<^verbatim>\<open>lat = lat\<close> and \<^verbatim>\<open>lng = lon\<close>: the first element is the
  longitude, the second the latitude, unchanged. Every probe that normalisation returns
  for the record has this point as the coordinates of its geometry. When the keys of the
  geometry mapping are slots, the geometry is constructed, with this point; and when
  moreover the keys of the record are slots and its status and tags are constructed,
  normalisation returns a probe.
\<close>

theorem coordinate_pair_gives_point:
  assumes "field d ''geometry'' = VDict g"
    and "field g ''coordinates'' = VList [lon, lat]"
  shows "bindE (iter (VList [lon, lat])) Point_init =
           Inr (VObj Point [(''x'', lon), (''y'', lat), (''lat'', lat), (''lng'', lon)]) \<and>
         (\<forall>p. normalise (VDict d) = Inr p \<longrightarrow>
            getpath p [''geometry'', ''coordinates''] =
              Inr (VObj Point [(''x'', lon), (''y'', lat), (''lat'', lat), (''lng'', lon)])) \<and>
         (set (dict_keys g) \<subseteq> set (slots Geometry) \<longrightarrow>
            build_geometry (VDict g) =
              Inr (VObj Geometry
                     [(''coordinates'',
                       VObj Point [(''x'', lon), (''y'', lat), (''lat'', lat), (''lng'', lon)]),
                      (''type'', field g ''type'')]) \<and>
            (set (dict_keys d) \<subseteq> set (slots Probe) \<and>
             (\<exists>status. build_status (field d ''status'') = Inr status) \<and>
             (\<exists>ts tags. iter (field d ''tags'') = Inr ts \<and> mapE make_tag ts = Inr tags) \<longrightarrow>
               (\<exists>p. normalise (VDict d) = Inr p \<and>
                  getpath p [''geometry'', ''coordinates''] =
                    Inr (VObj Point [(''x'', lon), (''y'', lat), (''lat'', lat), (''lng'', lon)]))))"
proof -
  let ?point = "point_obj lon lat"
  have point: "?point = VObj Point [(''x'', lon), (''y'', lat), (''lat'', lat), (''lng'', lon)]"
    by (simp add: point_obj_def)
  have 0: "bindE (iter (VList [lon, lat])) Point_init = Inr ?point"
    by (simp add: point_obj_def)
  have 1: "getpath p [''geometry'', ''coordinates''] = Inr ?point"
    if "normalise (VDict d) = Inr p" for p
  proof -
    from normalise_Inr[OF that] obtain status geometry tags where
      geo: "build_geometry (field d ''geometry'') = Inr geometry"
      and p: "p = probe_obj d status geometry tags"
      by blast
    from build_geometry_pair[OF geo[unfolded assms(1)] assms(2)] p show ?thesis
      by (simp add: probe_obj_def)
  qed
  have 2: "build_geometry (VDict g) =
             Inr (VObj Geometry [(''coordinates'', ?point), (''type'', field g ''type'')])"
    if "set (dict_keys g) \<subseteq> set (slots Geometry)"
    by (rule build_geometry_point[OF that assms(2)])
  have 3: "\<exists>p. normalise (VDict d) = Inr p \<and> getpath p [''geometry'', ''coordinates''] = Inr ?point"
    if keys: "set (dict_keys g) \<subseteq> set (slots Geometry)"
      and d: "set (dict_keys d) \<subseteq> set (slots Probe)"
      and st: "build_status (field d ''status'') = Inr status"
      and ts: "iter (field d ''tags'') = Inr ts" "mapE make_tag ts = Inr tags"
    for status ts tags
  proof -
    from 2[OF keys] have "build_geometry (field d ''geometry'') =
        Inr (VObj Geometry [(''coordinates'', ?point), (''type'', field g ''type'')])"
      by (simp add: assms(1))
    from normalise_total[OF d st this ts] show ?thesis
      by (auto simp: probe_obj_def)
  qed
  from 0 1 2 3 show ?thesis
    unfolding point by blast
qed

theorem coordinate_pair_gives_point_witness:
  "field rec_full ''geometry'' =
     VDict [(''type'', VStr ''Point''), (''coordinates'', VList [VFloat (Fin 10), VFloat (Fin 20)])] \<and>
   field [(''type'', VStr ''Point''), (''coordinates'', VList [VFloat (Fin 10), VFloat (Fin 20)])]
     ''coordinates'' = VList [VFloat (Fin 10), VFloat (Fin 20)] \<and>
   normalise (VDict rec_full) = Inr probe_full \<and>
   getpath probe_full [''geometry'', ''coordinates''] =
     Inr (VObj Point [(''x'', VFloat (Fin 10)), (''y'', VFloat (Fin 20)),
                      (''lat'', VFloat (Fin 20)), (''lng'', VFloat (Fin 10))]) \<and>
   build_geometry
     (VDict [(''type'', VStr ''Point''), (''coordinates'', VList [VFloat (Fin 10), VFloat (Fin 20)])]) =
     Inr (VObj Geometry
            [(''coordinates'',
              VObj Point [(''x'', VFloat (Fin 10)), (''y'', VFloat (Fin 20)),
                          (''lat'', VFloat (Fin 20)), (''lng'', VFloat (Fin 10))]),
             (''type'', VStr ''Point'')]) \<and>
   (\<exists>p. normalise (VDict rec_full) = Inr p \<and>
      getpath p [''geometry'', ''coordinates''] =
        Inr (VObj Point [(''x'', VFloat (Fin 10)), (''y'', VFloat (Fin 20)),
                         (''lat'', VFloat (Fin 20)), (''lng'', VFloat (Fin 10))]))"
proof -
  let ?g = "[(''type'', VStr ''Point''), (''coordinates'', VList [VFloat (Fin 10), VFloat (Fin 20)])]"
  have g: "field rec_full ''geometry'' = VDict ?g"
    by code_simp
  have c: "field ?g ''coordinates'' = VList [VFloat (Fin 10), VFloat (Fin 20)]"
    by code_simp
  have ty: "field ?g ''type'' = VStr ''Point''"
    by code_simp
  have keys: "set (dict_keys ?g) \<subseteq> set (slots Geometry)"
    by code_simp
  have rest: "set (dict_keys rec_full) \<subseteq> set (slots Probe)"
    "build_status (field rec_full ''status'') =
       Inr (VObj Status [(''since'', VStr ''2016-05-23T00:42:00Z''), (''id'', VInt 1),
                         (''name'', VStr ''Connected'')])"
    "iter (field rec_full ''tags'') =
       Inr [VDict [(''name'', VStr ''a''), (''slug'', VStr ''a1'')],
            VDict [(''name'', VStr ''b''), (''slug'', VStr ''b2'')]]"
    "mapE make_tag [VDict [(''name'', VStr ''a''), (''slug'', VStr ''a1'')],
                    VDict [(''name'', VStr ''b''), (''slug'', VStr ''b2'')]] =
       Inr [Tag_init (VStr ''a'') (VStr ''a1''), Tag_init (VStr ''b'') (VStr ''b2'')]"
    by code_simp+
  note pair = coordinate_pair_gives_point[OF g c]
  from pair normalise_rec_full
  have 1: "getpath probe_full [''geometry'', ''coordinates''] =
     Inr (VObj Point [(''x'', VFloat (Fin 10)), (''y'', VFloat (Fin 20)),
                      (''lat'', VFloat (Fin 20)), (''lng'', VFloat (Fin 10))])"
    by blast
  from pair keys ty
  have 2: "build_geometry (VDict ?g) =
     Inr (VObj Geometry
            [(''coordinates'',
              VObj Point [(''x'', VFloat (Fin 10)), (''y'', VFloat (Fin 20)),
                          (''lat'', VFloat (Fin 20)), (''lng'', VFloat (Fin 10))]),
             (''type'', VStr ''Point'')])"
    by simp
  from pair keys rest
  have 3: "\<exists>p. normalise (VDict rec_full) = Inr p \<and>
      getpath p [''geometry'', ''coordinates''] =
        Inr (VObj Point [(''x'', VFloat (Fin 10)), (''y'', VFloat (Fin 20)),
                         (''lat'', VFloat (Fin 20)), (''lng'', VFloat (Fin 10))])"
    by blast
  from g c normalise_rec_full 1 2 3 show ?thesis by blast
qed

text \<open>
  Claim C9. Every probe that normalisation constructs is a \<^verbatim>\<open>Probe\<close> with all slots
  assigned; its \<^verbatim>\<open>status\<close> is a \<^verbatim>\<open>Status\<close>, the all-default one when the raw record has
  no status or an empty one; its \<^verbatim>\<open>geometry\<close> is a \<^verbatim>\<open>Geometry\<close> whose \<^verbatim>\<open>coordinates\<close>
  are a \<^verbatim>\<open>Point\<close>; its \<^verbatim>\<open>tags\<close> are a list of \<^verbatim>\<open>Tag\<close>s, the empty list when the raw
  record has no tags.
\<close>

theorem probe_invariant:
  assumes "normalise (VDict d) = Inr p"
  shows "instance_of Probe p \<and>
         (\<exists>status geometry point tags.
            getattr p ''status'' = Inr status \<and> instance_of Status status \<and>
            getattr p ''geometry'' = Inr geometry \<and> instance_of Geometry geometry \<and>
            getattr geometry ''coordinates'' = Inr point \<and> instance_of Point point \<and>
            getattr p ''tags'' = Inr (VList tags) \<and> list_all (instance_of Tag) tags \<and>
            (\<not> truthy (field d ''status'') \<longrightarrow> status = default_status) \<and>
            (dict_get d ''tags'' = None \<longrightarrow> tags = []))"
proof -
  from normalise_Inr[OF assms(1)] obtain status geometry ts tags where
    st: "build_status (field d ''status'') = Inr status"
    and geo: "build_geometry (field d ''geometry'') = Inr geometry"
    and ts: "iter (field d ''tags'') = Inr ts"
    and tags: "mapE make_tag ts = Inr tags"
    and p: "p = probe_obj d status geometry (VList tags)"
    by blast
  from build_geometry_Inr[OF geo] obtain x y ty where
    geometry: "geometry = VObj Geometry [(''coordinates'', point_obj x y), (''type'', ty)]"
    by blast
  have 1: "instance_of Probe p"
    by (simp add: p probe_obj_def)
  have 2: "getattr p ''status'' = Inr status" "getattr p ''geometry'' = Inr geometry"
    "getattr p ''tags'' = Inr (VList tags)"
    by (simp_all add: p probe_obj_def)
  have 3: "instance_of Status status"
    by (rule build_status_Inr[OF st])
  have 4: "instance_of Geometry geometry" "getattr geometry ''coordinates'' = Inr (point_obj x y)"
    "instance_of Point (point_obj x y)"
    by (simp_all add: geometry point_obj_def)
  have 5: "list_all (instance_of Tag) tags"
    by (rule mapE_Inr_all[OF tags]) (rule make_tag_Inr)
  have 6: "status = default_status" if "\<not> truthy (field d ''status'')"
    using st that by (simp add: build_status_falsy)
  have 7: "tags = []" if "dict_get d ''tags'' = None"
    using ts tags that by (auto simp: field_def)
  from 1 2 3 4 5 6 7 show ?thesis
    by (intro conjI exI[of _ status] exI[of _ geometry] exI[of _ "point_obj x y"] exI[of _ tags])
      simp_all
qed

theorem probe_invariant_witness:
  "normalise (VDict rec_bare) = Inr probe_bare \<and>
   instance_of Probe probe_bare \<and>
   getattr probe_bare ''status'' = Inr default_status \<and>
   getattr probe_bare ''geometry'' = Inr default_geometry \<and>
   getattr probe_bare ''tags'' = Inr (VList [])"
proof -
  from probe_invariant[OF normalise_rec_bare] have "instance_of Probe probe_bare"
    by (rule conjunct1)
  moreover have "getattr probe_bare ''status'' = Inr default_status"
    "getattr probe_bare ''geometry'' = Inr default_geometry"
    "getattr probe_bare ''tags'' = Inr (VList [])"
    by code_simp+
  ultimately show ?thesis
    using normalise_rec_bare by simp
qed

section \<open>Failures of the normaliser\<close>

lemma Point_init_length: "length cs \<noteq> 2 \<Longrightarrow> Point_init cs = Inl ValueError"
  by (cases cs rule: Point_init.cases) auto

lemma geometry_call_bad_length:
  assumes "field g ''coordinates'' = VList cs" and "cs \<noteq> []" and "length cs \<noteq> 2"
  shows "\<exists>e. call_kwargs Geometry_init (VDict g) = Inl e"
    and "set (dict_keys g) \<subseteq> set (slots Geometry) \<Longrightarrow>
         call_kwargs Geometry_init (VDict g) = Inl ValueError"
proof -
  have ok: "call_kwargs Geometry_init (VDict g) = Inl ValueError"
    if keys: "set (dict_keys g) \<subseteq> set (slots Geometry)"
    using self_not_slot[OF keys] assms
    by (simp add: Geometry_init_items[OF keys] Point_init_length)
  then show "set (dict_keys g) \<subseteq> set (slots Geometry) \<Longrightarrow>
         call_kwargs Geometry_init (VDict g) = Inl ValueError" .
  show "\<exists>e. call_kwargs Geometry_init (VDict g) = Inl e"
  proof (cases "set (dict_keys g) \<subseteq> set (slots Geometry)")
    case True
    with ok show ?thesis by blast
  next
    case False
    from Geometry_init_rejects[OF this] show ?thesis by auto
  qed
qed

text \<open>
  Claim C10. When the geometry mapping of a raw record carries a non-empty list of
  \<^verbatim>\<open>coordinates\<close> whose length is not two, the construction of the \<^verbatim>\<open>Geometry\<close> fails
  and so does the normalisation of the record. The failure of the \<^verbatim>\<open>Geometry\<close> is the
  \<^verbatim>\<open>ValueError\<close> of \<^verbatim>\<open>self.x, self.y = coords\<close> whenever the keys of the geometry
  mapping are slots, that is whenever the construction gets as far as the point.
\<close>

theorem bad_coordinate_length_fails:
  assumes "field d ''geometry'' = VDict g"
    and "field g ''coordinates'' = VList cs"
    and "cs \<noteq> []" and "length cs \<noteq> 2"
  shows "(\<exists>e. call_kwargs Geometry_init (VDict g) = Inl e) \<and>
         (\<exists>e. normalise (VDict d) = Inl e) \<and>
         (set (dict_keys g) \<subseteq> set (slots Geometry) \<longrightarrow>
            call_kwargs Geometry_init (VDict g) = Inl ValueError)"
proof -
  note geo = geometry_call_bad_length[OF assms(2-4)]
  from assms(2) have "field g ''coordinates'' \<noteq> VStr []" by simp
  then have "g \<noteq> []" by (rule field_nonempty)
  then have built: "build_geometry (field d ''geometry'') = call_kwargs Geometry_init (VDict g)"
    by (simp add: build_geometry_def assms(1))
  have "\<exists>e. normalise (VDict d) = Inl e"
  proof (cases "set (dict_keys d) \<subseteq> set (slots Probe)")
    case False
    from normalise_rejects[OF this] show ?thesis by auto
  next
    case True
    from geo(1) obtain e where "build_geometry (field d ''geometry'') = Inl e"
      unfolding built by blast
    then show ?thesis
      unfolding normalise_accepts[OF True]
      by (cases "build_status (field d ''status'')") simp_all
  qed
  with geo show ?thesis by blast
qed

theorem bad_coordinate_length_fails_witness:
  "field rec_three_coordinates ''geometry'' =
     VDict [(''coordinates'', VList [VFloat (Fin 10), VFloat (Fin 20), VFloat (Fin 30)])] \<and>
   field [(''coordinates'', VList [VFloat (Fin 10), VFloat (Fin 20), VFloat (Fin 30)])] ''coordinates'' =
     VList [VFloat (Fin 10), VFloat (Fin 20), VFloat (Fin 30)] \<and>
   call_kwargs Geometry_init (VDict [(''coordinates'', VList [VFloat (Fin 10), VFloat (Fin 20), VFloat (Fin 30)])]) =
     Inl ValueError \<and>
   normalise (VDict rec_three_coordinates) = Inl ValueError"
proof -
  let ?cs = "[VFloat (Fin 10), VFloat (Fin 20), VFloat (Fin 30)]"
  let ?g = "[(''coordinates'', VList ?cs)]"
  have g: "field rec_three_coordinates ''geometry'' = VDict ?g"
    by code_simp
  have c: "field ?g ''coordinates'' = VList ?cs"
    by code_simp
  have keys: "set (dict_keys ?g) \<subseteq> set (slots Geometry)"
    by code_simp
  have n: "normalise (VDict rec_three_coordinates) = Inl ValueError"
    by code_simp
  from bad_coordinate_length_fails[OF g c] keys
  have "call_kwargs Geometry_init (VDict ?g) = Inl ValueError"
    by simp
  with g c n show ?thesis by simp
qed

lemma normalise_rejects_attr:
  assumes "\<not> set (dict_keys d) \<subseteq> set (slots Probe)"
    and "''self'' \<notin> set (dict_keys d)" and "''__class__'' \<notin> set (dict_keys d)"
  shows "normalise (VDict d) = Inl AttributeError"
proof -
  from assms(1) have "\<not> fst ` set (dict_items d) \<subseteq> set (slots Probe)"
    by (simp add: dict_keys_def)
  from set_all_rejects[OF this] assms(3) have
    "set_all (VObj Probe (map (\<lambda>k. (k, VStr [])) (slots Probe))) (dict_items d) = Inl AttributeError"
    by (simp add: dict_keys_def)
  then have "Probe_init (dict_items d) = Inl AttributeError"
    unfolding Probe_init_def fill_eq by simp
  with assms(2) show ?thesis by (simp add: normalise_def)
qed

text \<open>
  Claim C1, as the code has it. The claim says that a key of the raw record that is no
  field of \<^verbatim>\<open>Probe\<close> is ignored. \<^verbatim>\<open>Probe\<close> declares \<^verbatim>\<open>__slots__\<close>, so
  \<^verbatim>\<open>setattr(self, k, v)\<close> raises for such a key: the record with the key
  \<^verbatim>\<open>firmware_version\<close> is rejected, while the same record without it normalises.
\<close>

theorem unknown_key_counterexample:
  "normalise (VDict rec_unknown_key) = Inl AttributeError \<and>
   normalise (VDict (filter (\<lambda>kv. fst kv \<noteq> ''firmware_version'') rec_unknown_key)) =
     Inr (probe_obj [(''id'', VInt 1)] default_status default_geometry (VList []))"
  by code_simp

text \<open>
  Claim C1, amended. Every raw record with a key that is not a slot of \<^verbatim>\<open>Probe\<close> fails to
  normalise, with \<^verbatim>\<open>AttributeError\<close> or \<^verbatim>\<open>TypeError\<close>; it is \<^verbatim>\<open>AttributeError\<close> when
  neither \<^verbatim>\<open>self\<close> nor \<^verbatim>\<open>__class__\<close> is among the keys.
\<close>

theorem unknown_key_rejected:
  assumes "k \<in> set (dict_keys d)" and "k \<notin> set (slots Probe)"
  shows "(normalise (VDict d) = Inl AttributeError \<or> normalise (VDict d) = Inl TypeError) \<and>
         (''self'' \<notin> set (dict_keys d) \<and> ''__class__'' \<notin> set (dict_keys d) \<longrightarrow>
            normalise (VDict d) = Inl AttributeError)"
proof -
  from assms have bad: "\<not> set (dict_keys d) \<subseteq> set (slots Probe)" by blast
  from normalise_rejects[OF bad] normalise_rejects_attr[OF bad] show ?thesis by blast
qed

theorem unknown_key_rejected_witness:
  "''firmware_version'' \<in> set (dict_keys rec_unknown_key) \<and>
   ''firmware_version'' \<notin> set (slots Probe) \<and>
   ''self'' \<notin> set (dict_keys rec_unknown_key) \<and>
   ''__class__'' \<notin> set (dict_keys rec_unknown_key) \<and>
   normalise (VDict rec_unknown_key) = Inl AttributeError"
proof -
  have k: "''firmware_version'' \<in> set (dict_keys rec_unknown_key)"
    by code_simp
  have n: "''firmware_version'' \<notin> set (slots Probe)"
    by simp
  have o: "''self'' \<notin> set (dict_keys rec_unknown_key)"
    "''__class__'' \<notin> set (dict_keys rec_unknown_key)"
    by code_simp+
  from unknown_key_rejected[OF k n] o
  have "normalise (VDict rec_unknown_key) = Inl AttributeError"
    by blast
  with k n o show ?thesis by blast
qed

lemma make_tag_incomplete:
  assumes "dict_get t ''name'' = None \<or> dict_get t ''slug'' = None"
  shows "make_tag (VDict t) =
         Inl (KeyError (if dict_get t ''name'' = None then ''name'' else ''slug''))"
  using assms by (auto simp: make_tag_def split: option.splits)

lemma mapE_append:
  "mapE f (xs @ ys) = bindE (mapE f xs) (\<lambda>as. bindE (mapE f ys) (\<lambda>bs. Inr (as @ bs)))"
proof (induction xs)
  case Nil
  show ?case by (cases "mapE f ys") simp_all
next
  case (Cons x xs)
  show ?case
    by (cases "f x"; cases "mapE f xs"; cases "mapE f ys") (simp_all add: Cons.IH)
qed

lemma mapE_first_failure:
  "mapE f pre = Inr ys \<Longrightarrow> f x = Inl e \<Longrightarrow> mapE f (pre @ x # post) = Inl e"
  by (simp add: mapE_append)

lemma mapE_some_failure:
  "f x = Inl e \<Longrightarrow> \<exists>e'. mapE f (pre @ x # post) = Inl e'"
  by (cases "mapE f pre") (simp_all add: mapE_append)

lemma normalise_tags_fail:
  assumes "field d ''tags'' = VList ts" and "mapE make_tag ts = Inl e"
  shows "\<exists>e'. normalise (VDict d) = Inl e'"
    and "set (dict_keys d) \<subseteq> set (slots Probe) \<Longrightarrow>
         build_status (field d ''status'') = Inr status \<Longrightarrow>
         build_geometry (field d ''geometry'') = Inr geometry \<Longrightarrow>
         normalise (VDict d) = Inl e"
proof -
  show "\<exists>e'. normalise (VDict d) = Inl e'"
  proof (cases "set (dict_keys d) \<subseteq> set (slots Probe)")
    case False
    from normalise_rejects[OF this] show ?thesis by auto
  next
    case True
    show ?thesis
      unfolding normalise_accepts[OF True]
      by (cases "build_status (field d ''status'')"; cases "build_geometry (field d ''geometry'')")
        (simp_all add: assms)
  qed
  show "normalise (VDict d) = Inl e"
    if "set (dict_keys d) \<subseteq> set (slots Probe)"
      "build_status (field d ''status'') = Inr status"
      "build_geometry (field d ''geometry'') = Inr geometry"
    using that(2,3) assms unfolding normalise_accepts[OF that(1)] by simp
qed

lemma each_probe_append:
  "each_probe body (xs @ ys) s =
     (case each_probe body xs s of
        (s', Some e) \<Rightarrow> (s', Some e)
      | (s', None) \<Rightarrow> each_probe body ys s')"
proof (induction xs arbitrary: s)
  case Nil
  show ?case by simp
next
  case (Cons x xs)
  show ?case
    by (cases "normalise x") (auto simp: Cons.IH split: sum.splits)
qed

lemma page_record_fails:
  assumes "getitem data ''count'' = Inr count" and "truthy count"
    and "getitem data ''next'' = Inr url"
    and "getitem data ''results'' = Inr (VList (good @ bad # rest))"
    and "each_probe body good s = (s', None)"
    and "normalise bad = Inl e"
  shows "page body (Response 200 (Some data)) s = Stop s' (Raised e)"
  using assms
  by (simp add: page_def codes_ok_def get_probe_data_def each_probe_append)

text \<open>
  Claim C4, as the code has it. The claim says that a record with an incomplete tag
  fails with a field-missing failure. The tags are built last: a record whose geometry
  carries three coordinates and whose only tag lacks \<^verbatim>\<open>slug\<close> fails with the
  \<^verbatim>\<open>ValueError\<close> of the point, not with a \<^verbatim>\<open>KeyError\<close>.
\<close>

theorem incomplete_tag_counterexample:
  "field rec_bad_tag_three_coordinates ''tags'' = VList [VDict [(''name'', VStr ''a'')]] \<and>
   dict_get [(''name'', VStr ''a'')] ''slug'' = None \<and>
   normalise (VDict rec_bad_tag_three_coordinates) = Inl ValueError"
  by code_simp

text \<open>
  Claim C4, amended. A raw record whose list of tags contains a mapping without \<^verbatim>\<open>name\<close>
  or without \<^verbatim>\<open>slug\<close> never normalises. When a page carries such a record after records
  that were yielded, the generator ends there with the exception of that record: the
  consumer keeps the state it had after the earlier records, no further request is
  issued, and nothing of the rest of the page is read. The exception is the \<^verbatim>\<open>KeyError\<close>
  of the missing key (\<^verbatim>\<open>name\<close> before \<^verbatim>\<open>slug\<close>) when the keys of the record are slots,
  its status and geometry are constructed, and the tags before the incomplete one are
  complete.
\<close>

theorem incomplete_tag_aborts:
  assumes "field d ''tags'' = VList (pre @ VDict t # post)"
    and "dict_get t ''name'' = None \<or> dict_get t ''slug'' = None"
    and "getitem data ''count'' = Inr count" and "truthy count"
    and "getitem data ''next'' = Inr url"
    and "getitem data ''results'' = Inr (VList (good @ VDict d # rest))"
    and "each_probe body good s = (s', None)"
  shows "\<exists>e. normalise (VDict d) = Inl e \<and>
             pages srv body reqs (Response 200 (Some data)) s =
               Some \<lparr>final = s', requests = reqs, ended = Raised e\<rparr> \<and>
             (set (dict_keys d) \<subseteq> set (slots Probe) \<and>
              (\<exists>status. build_status (field d ''status'') = Inr status) \<and>
              (\<exists>geometry. build_geometry (field d ''geometry'') = Inr geometry) \<and>
              (\<exists>tags. mapE make_tag pre = Inr tags) \<longrightarrow>
              e = KeyError (if dict_get t ''name'' = None then ''name'' else ''slug''))"
proof -
  let ?k = "if dict_get t ''name'' = None then ''name'' else ''slug''"
  note tag = make_tag_incomplete[OF assms(2)]
  from mapE_some_failure[of make_tag "VDict t" _ pre post, OF tag] obtain e0 where
    e0: "mapE make_tag (pre @ VDict t # post) = Inl e0" by blast
  from normalise_tags_fail(1)[OF assms(1) e0] obtain e where e: "normalise (VDict d) = Inl e"
    by blast
  from page_record_fails[OF assms(3-7) e]
  have run: "pages srv body reqs (Response 200 (Some data)) s =
               Some \<lparr>final = s', requests = reqs, ended = Raised e\<rparr>"
    by (subst pages.simps) simp
  have "e = KeyError ?k"
    if keys: "set (dict_keys d) \<subseteq> set (slots Probe)"
      and st: "build_status (field d ''status'') = Inr status"
      and geo: "build_geometry (field d ''geometry'') = Inr geometry"
      and pre: "mapE make_tag pre = Inr tags"
    for status geometry tags
  proof -
    from mapE_first_failure[of make_tag pre tags "VDict t" _ post, OF pre tag]
    have "mapE make_tag (pre @ VDict t # post) = Inl (KeyError ?k)" .
    from normalise_tags_fail(2)[OF assms(1) this keys st geo] e show ?thesis by simp
  qed
  with e run show ?thesis by blast
qed

theorem incomplete_tag_aborts_witness:
  "field rec_bad_tag ''tags'' =
     VList ([VDict [(''name'', VStr ''a''), (''slug'', VStr ''a1'')]] @
            VDict [(''name'', VStr ''b'')] # []) \<and>
   dict_get [(''name'', VStr ''b'')] ''slug'' = None \<and>
   getitem page_bad_tag ''results'' = Inr (VList ([VDict rec_bare] @ VDict rec_bad_tag # [VDict rec_full])) \<and>
   each_probe collect [VDict rec_bare] [] = ([probe_bare], None) \<and>
   normalise (VDict rec_bad_tag) = Inl (KeyError ''slug'') \<and>
   pages nobody collect [first_request] (Response 200 (Some page_bad_tag)) [] =
     Some \<lparr>final = [probe_bare], requests = [first_request], ended = Raised (KeyError ''slug'')\<rparr>"
proof -
  let ?t = "[(''name'', VStr ''b'')]"
  have tags: "field rec_bad_tag ''tags'' =
      VList ([VDict [(''name'', VStr ''a''), (''slug'', VStr ''a1'')]] @ VDict ?t # [])"
    by code_simp
  have slug: "dict_get ?t ''name'' = None \<or> dict_get ?t ''slug'' = None"
    by code_simp
  have count: "getitem page_bad_tag ''count'' = Inr (VInt 3)" "truthy (VInt 3)"
    and nxt: "getitem page_bad_tag ''next'' = Inr VNone"
    and results: "getitem page_bad_tag ''results'' =
      Inr (VList ([VDict rec_bare] @ VDict rec_bad_tag # [VDict rec_full]))"
    by code_simp+
  have good: "each_probe collect [VDict rec_bare] [] = ([probe_bare], None)"
    by (simp add: normalise_rec_bare collect_def)
  have n: "normalise (VDict rec_bad_tag) = Inl (KeyError ''slug'')"
    by code_simp
  have s: "dict_get ?t ''slug'' = None"
    by code_simp
  from incomplete_tag_aborts[OF tags slug count nxt results good, of nobody "[first_request]"] n
  have "pages nobody collect [first_request] (Response 200 (Some page_bad_tag)) [] =
      Some \<lparr>final = [probe_bare], requests = [first_request], ended = Raised (KeyError ''slug'')\<rparr>"
    by auto
  with tags s results good n show ?thesis by blast
qed

section \<open>Properties of the paginator\<close>

lemma each_probe_collect:
  "mapE normalise rs = Inr ps \<Longrightarrow> each_probe collect rs acc = (acc @ ps, None)"
proof (induction rs arbitrary: ps acc)
  case Nil
  then show ?case by simp
next
  case (Cons r rs)
  from Cons.prems obtain p ps' where p: "normalise r = Inr p"
    and ps': "mapE normalise rs = Inr ps'" and ps: "ps = p # ps'"
    by (auto simp: bindE_eq_Inr)
  from Cons.IH[OF ps', of "acc @ [p]"] p ps show ?case
    by (simp add: collect_def)
qed

lemma page_yields:
  assumes "getitem data ''count'' = Inr count" and "truthy count"
    and "getitem data ''next'' = Inr url"
    and "getitem data ''results'' = Inr (VList rs)"
    and "each_probe body rs s = (s', None)"
  shows "page body (Response 200 (Some data)) s =
         (if truthy url then Next s' url else Stop s' Finished)"
  using assms by (simp add: page_def codes_ok_def get_probe_data_def)

lemma page_error_status:
  assumes "400 \<le> code" and "code < 600"
  shows "page body (Response code json) s = Stop s (Raised (HTTPError code))"
  using assms by (simp add: page_def codes_ok_def raise_for_status_def)

text \<open>
  For the client-error and server-error codes the generator ends with the HTTP error of
  the status: the state of the consumer is the one it had before the response, and no
  further request is issued.
\<close>

lemma error_status_raises:
  assumes "400 \<le> code" and "code < 600"
  shows "pages srv body reqs (Response code json) s =
           Some \<lparr>final = s, requests = reqs, ended = Raised (HTTPError code)\<rparr>"
  by (subst pages.simps) (simp add: page_error_status[OF assms])

text \<open>
  Claim C6. Every response with a non-success status is to end the listing with an HTTP
  error that carries the status, and nothing of that response is to be yielded. The
  program tests \<^verbatim>\<open>if not r.status_code == requests.codes.ok\<close> and then relies on
  \<^verbatim>\<open>raise_for_status\<close>, which raises for 400 to 599 only. On a response with status
  302 that carries a page the test holds, nothing is raised, and the program goes on to
  read the body: the record of the page is yielded and the listing ends normally.
\<close>

theorem non_ok_status_is_read:
  "found_elsewhere [first_request] =
     Response 302 (Some (page_of (VInt 1) VNone [VDict rec_bare])) \<and>
   get_probes found_elsewhere collect [] =
     Some \<lparr>final = [probe_bare], requests = [first_request], ended = Finished\<rparr>"
  by code_simp

text \<open>
  Claim C5, as the code has it. The claim asks a non-zero count of the first two pages
  only. The count is tested before the records of a page are read, on every page: when
  the third page reports the count 0, its record is not yielded.
\<close>

theorem three_pages_counterexample:
  "get_probes (three_pages (VInt 0)) collect [] =
     Some \<lparr>final = [probe_bare, probe_full],
           requests = [first_request, Get url2 [], Get url3 []],
           ended = Finished\<rparr>"
  by code_simp

text \<open>
  Claim C5, amended. The server answers the first request with page 1, the request for
  the \<^verbatim>\<open>next\<close> of page 1 with page 2 and the request for the \<^verbatim>\<open>next\<close> of page 2 with
  page 3; all three pages report a non-zero count, the \<^verbatim>\<open>next\<close> of pages 1 and 2 is
  non-empty and that of page 3 is null, and every record normalises. Then the generator
  yields the probes of page 1, of page 2 and of page 3, in this order and in the order of
  each page, ends normally, and has issued exactly these three requests.
\<close>

theorem three_pages_listed:
  assumes "srv [first_request] = Response 200 (Some data1)"
    and "getitem data1 ''count'' = Inr count1" and "truthy count1"
    and "getitem data1 ''next'' = Inr next1" and "truthy next1"
    and "getitem data1 ''results'' = Inr (VList rs1)"
    and "mapE normalise rs1 = Inr ps1"
    and "srv [first_request, Get next1 []] = Response 200 (Some data2)"
    and "getitem data2 ''count'' = Inr count2" and "truthy count2"
    and "getitem data2 ''next'' = Inr next2" and "truthy next2"
    and "getitem data2 ''results'' = Inr (VList rs2)"
    and "mapE normalise rs2 = Inr ps2"
    and "srv [first_request, Get next1 [], Get next2 []] = Response 200 (Some data3)"
    and "getitem data3 ''count'' = Inr count3" and "truthy count3"
    and "getitem data3 ''next'' = Inr VNone"
    and "getitem data3 ''results'' = Inr (VList rs3)"
    and "mapE normalise rs3 = Inr ps3"
  shows "get_probes srv collect [] =
           Some \<lparr>final = ps1 @ ps2 @ ps3,
                 requests = [first_request, Get next1 [], Get next2 []],
                 ended = Finished\<rparr>"
proof -
  have 1: "page collect (Response 200 (Some data1)) [] = Next ps1 next1"
    using page_yields[OF assms(2,3,4,6) each_probe_collect[OF assms(7)], of "[]"] assms(5)
    by simp
  have 2: "page collect (Response 200 (Some data2)) ps1 = Next (ps1 @ ps2) next2"
    using page_yields[OF assms(9,10,11,13) each_probe_collect[OF assms(14)], of ps1] assms(12)
    by simp
  have 3: "page collect (Response 200 (Some data3)) (ps1 @ ps2) = Stop (ps1 @ ps2 @ ps3) Finished"
    using page_yields[OF assms(16,17,18,19) each_probe_collect[OF assms(20)], of "ps1 @ ps2"]
    by simp
  show ?thesis
    unfolding get_probes_def assms(1)
    apply (subst pages.simps)
    apply (simp only: 1 turn.case append.simps assms(8))
    apply (subst pages.simps)
    apply (simp only: 2 turn.case append.simps assms(15))
    apply (subst pages.simps)
    apply (simp only: 3 turn.case)
    done
qed

theorem three_pages_listed_witness:
  "three_pages (VInt 3) [first_request] =
     Response 200 (Some (page_of (VInt 3) url2 [VDict rec_bare])) \<and>
   three_pages (VInt 3) [first_request, Get url2 []] =
     Response 200 (Some (page_of (VInt 3) url3 [VDict rec_full])) \<and>
   three_pages (VInt 3) [first_request, Get url2 [], Get url3 []] =
     Response 200 (Some (page_of (VInt 3) VNone [VDict rec_no_coordinates])) \<and>
   truthy (VInt 3) \<and> truthy url2 \<and> truthy url3 \<and>
   mapE normalise [VDict rec_bare] = Inr [probe_bare] \<and>
   mapE normalise [VDict rec_full] = Inr [probe_full] \<and>
   mapE normalise [VDict rec_no_coordinates] = Inr [probe_no_coordinates] \<and>
   get_probes (three_pages (VInt 3)) collect [] =
     Some \<lparr>final = [probe_bare] @ [probe_full] @ [probe_no_coordinates],
           requests = [first_request, Get url2 [], Get url3 []],
           ended = Finished\<rparr>"
proof -
  have s1: "three_pages (VInt 3) [first_request] =
      Response 200 (Some (page_of (VInt 3) url2 [VDict rec_bare]))"
    by (simp add: three_pages_def)
  have s2: "three_pages (VInt 3) [first_request, Get url2 []] =
      Response 200 (Some (page_of (VInt 3) url3 [VDict rec_full]))"
    by (simp add: three_pages_def)
  have s3: "three_pages (VInt 3) [first_request, Get url2 [], Get url3 []] =
      Response 200 (Some (page_of (VInt 3) VNone [VDict rec_no_coordinates]))"
    by (simp add: three_pages_def)
  have page: "getitem (page_of count url results) ''count'' = Inr count"
    "getitem (page_of count url results) ''next'' = Inr url"
    "getitem (page_of count url results) ''results'' = Inr (VList results)"
    for count url results
    by (simp_all add: page_of_def dict_get_def dict_items_def)
  have t: "truthy (VInt 3)" "truthy url2" "truthy url3"
    by (simp_all add: url2_def url3_def)
  have n1: "mapE normalise [VDict rec_bare] = Inr [probe_bare]"
    by (simp add: normalise_rec_bare)
  have n2: "mapE normalise [VDict rec_full] = Inr [probe_full]"
    by (simp add: normalise_rec_full)
  have n3: "mapE normalise [VDict rec_no_coordinates] = Inr [probe_no_coordinates]"
    by (simp add: normalise_rec_no_coordinates)
  from three_pages_listed[OF s1 page(1) t(1) page(2) t(2) page(3) n1
      s2 page(1) t(1) page(2) t(3) page(3) n2
      s3 page(1) t(1) page(2) page(3) n3]
  have "get_probes (three_pages (VInt 3)) collect [] =
     Some \<lparr>final = [probe_bare] @ [probe_full] @ [probe_no_coordinates],
           requests = [first_request, Get url2 [], Get url3 []],
           ended = Finished\<rparr>" .
  with s1 s2 s3 t n1 n2 n3 show ?thesis by blast
qed

section \<open>Properties of the serialisation\<close>

lemma split_on_free: "c \<notin> set f \<Longrightarrow> split_on c f = [f]"
  by (induction f) auto

lemma split_on_field: "c \<notin> set f \<Longrightarrow> split_on c (f @ c # rest) = f # split_on c rest"
  by (induction f) auto

lemma split_on_join:
  "fs \<noteq> [] \<Longrightarrow> (\<forall>f\<in>set fs. c \<notin> set f) \<Longrightarrow> split_on c (join [c] fs) = fs"
proof (induction "[c]" fs rule: join.induct)
  case 1
  then show ?case by simp
next
  case (2 x)
  then show ?case by (simp add: split_on_free)
next
  case (3 x y ys)
  then show ?case by (simp add: split_on_field)
qed

lemma join_snoc: "xs \<noteq> [] \<Longrightarrow> join sep (xs @ [y]) = join sep xs @ sep @ y"
  by (induction sep xs rule: join.induct) auto

lemma bindE_assoc: "bindE (bindE m f) g = bindE m (\<lambda>x. bindE (f x) g)"
  by (cases m) simp_all

lemma row_values_probe:
  "row_values rt
     (probe_obj d (VObj Status [(''since'', s), (''id'', i), (''name'', nm)])
        (VObj Geometry [(''coordinates'', point_obj x y), (''type'', ty)]) tags) =
   bindE (upper rt nm) (\<lambda>up. bindE (join_slugs tags) (\<lambda>sl.
     Inr [field d ''id'', field d ''asn_v4'', field d ''address_v4'', field d ''prefix_v4'',
          field d ''asn_v6'', field d ''address_v6'', field d ''prefix_v6'',
          field d ''country_code'', y, x,
          VInt (if truthy (field d ''is_anchor'') then 1 else 0),
          VInt (if truthy (field d ''is_public'') then 1 else 0),
          field d ''last_connected'', up, field d ''status_since'', sl]))"
  by (simp add: row_values_def probe_obj_def point_obj_def flag_def bindE_assoc)

lemma build_status_shape:
  assumes "build_status v = Inr status"
  shows "\<exists>s i nm. status = VObj Status [(''since'', s), (''id'', i), (''name'', nm)]"
proof (cases "truthy v")
  case False
  with assms show ?thesis by (auto simp: build_status_falsy default_status_def)
next
  case True
  with assms obtain d where d: "v = VDict d" "Status_init (dict_items d) = Inr status"
    by (auto simp: build_status_def dest: call_kwargs_Inr)
  have "set (dict_keys d) \<subseteq> set (slots Status)"
  proof (rule ccontr)
    assume "\<not> ?thesis"
    from Status_init_rejects[OF this] d(2) show False by simp
  qed
  from Status_init_items[OF this] d show ?thesis by auto
qed

lemma build_status_dict:
  assumes "build_status (VDict sd) = Inr status"
  shows "status = VObj Status [(''since'', field sd ''since''), (''id'', field sd ''id''),
                               (''name'', field sd ''name'')]"
proof (cases "sd = []")
  case True
  with assms show ?thesis
    by (auto simp: build_status_falsy default_status_def field_def dict_get_def dict_items_def)
next
  case False
  with assms have init: "Status_init (dict_items sd) = Inr status"
    by (auto simp: build_status_def split: if_splits)
  have "set (dict_keys sd) \<subseteq> set (slots Status)"
  proof (rule ccontr)
    assume "\<not> ?thesis"
    from Status_init_rejects[OF this] init show False by simp
  qed
  from Status_init_items[OF this] init show ?thesis by simp
qed

lemma upper_Inr: "upper rt v = Inr w \<Longrightarrow> \<exists>s. v = VStr s \<and> w = VStr (str_upper rt s)"
  by (cases v) auto

lemma join_slugs_Inr:
  "join_slugs (VList tags) = Inr w \<Longrightarrow>
   \<exists>slugs. mapE (\<lambda>t. bindE (getattr t ''slug'') as_str) tags = Inr slugs \<and>
            w = VStr (join TAG_SEP slugs)"
  by (auto simp: join_slugs_def bindE_eq_Inr)

lemma str_flag: "str rt (VInt (if b then 1 else 0)) = (if b then ''1'' else ''0'')"
  by (simp add: show_int_def digits.simps)

lemma row_probe_full:
  "row no_interpreter probe_full = Inr ''1,3333,,,,,,NL,20.0,10.0,0,1,,CONNECTED,,a1+b2''"
  by code_simp

text \<open>
  Claim C2, as the code has it. The claim counts 15 fields and names 16. The tuple of
  \<^verbatim>\<open>main\<close> has 16 expressions: the line of the sample probe has 16 fields.
\<close>

theorem row_field_count_counterexample:
  "row no_interpreter probe_full = Inr ''1,3333,,,,,,NL,20.0,10.0,0,1,,CONNECTED,,a1+b2'' \<and>
   split_on (CHR '','') ''1,3333,,,,,,NL,20.0,10.0,0,1,,CONNECTED,,a1+b2'' =
     [''1'', ''3333'', [], [], [], [], [], ''NL'', ''20.0'', ''10.0'', ''0'', ''1'', [],
      ''CONNECTED'', [], ''a1+b2''] \<and>
   length (split_on (CHR '','') ''1,3333,,,,,,NL,20.0,10.0,0,1,,CONNECTED,,a1+b2'') = 16"
  by code_simp

text \<open>
  Claim C2, amended. Take a normalised probe. Its serialisation succeeds exactly when the
  name of its status is a string and every slug of its tags is a string. The line is then
  the join by \<^verbatim>\<open>,\<close> of exactly 16 texts, in this order: id, asn_v4, address_v4,
  prefix_v4, asn_v6, address_v6, prefix_v6, country_code, latitude, longitude, anchor
  flag (1 or 0), public flag (1 or 0), last_connected, the name of the status in upper
  case, status_since, and the slugs of the tags joined by \<^verbatim>\<open>+\<close>. When none of these
  texts contains a comma, splitting the line at the commas gives back exactly these 16
  fields.
\<close>

theorem row_is_sixteen_fields:
  assumes "normalise (VDict d) = Inr p"
  shows "\<exists>lat lng nm tags.
     getpath p [''geometry'', ''coordinates'', ''lat''] = Inr lat \<and>
     getpath p [''geometry'', ''coordinates'', ''lng''] = Inr lng \<and>
     getpath p [''status'', ''name''] = Inr nm \<and>
     getattr p ''tags'' = Inr (VList tags) \<and>
     (\<forall>line. row rt p = Inr line \<longrightarrow>
        (\<exists>name slugs. nm = VStr name \<and>
           mapE (\<lambda>t. bindE (getattr t ''slug'') as_str) tags = Inr slugs)) \<and>
     (\<forall>name slugs.
        nm = VStr name \<and> mapE (\<lambda>t. bindE (getattr t ''slug'') as_str) tags = Inr slugs \<longrightarrow>
        row rt p = Inr (join COL_SEP (row_fields rt d lat lng name slugs)) \<and>
        length (row_fields rt d lat lng name slugs) = 16 \<and>
        ((\<forall>f\<in>set (row_fields rt d lat lng name slugs). CHR '','' \<notin> set f) \<longrightarrow>
           split_on (CHR '','') (join COL_SEP (row_fields rt d lat lng name slugs)) =
             row_fields rt d lat lng name slugs))"
proof -
  from normalise_Inr[OF assms(1)] obtain status geometry tags where
    st: "build_status (field d ''status'') = Inr status"
    and geo: "build_geometry (field d ''geometry'') = Inr geometry"
    and p: "p = probe_obj d status geometry (VList tags)"
    by blast
  from build_status_shape[OF st] obtain s i nm where
    status: "status = VObj Status [(''since'', s), (''id'', i), (''name'', nm)]"
    by blast
  from build_geometry_Inr[OF geo] obtain x y ty where
    geometry: "geometry = VObj Geometry [(''coordinates'', point_obj x y), (''type'', ty)]"
    by blast
  note vals = row_values_probe[of rt d s i nm x y ty "VList tags", folded status geometry p]
  have 1: "getpath p [''geometry'', ''coordinates'', ''lat''] = Inr y"
    "getpath p [''geometry'', ''coordinates'', ''lng''] = Inr x"
    "getpath p [''status'', ''name''] = Inr nm"
    "getattr p ''tags'' = Inr (VList tags)"
    by (simp_all add: p status geometry probe_obj_def point_obj_def)
  have 2: "\<exists>name slugs. nm = VStr name \<and>
      mapE (\<lambda>t. bindE (getattr t ''slug'') as_str) tags = Inr slugs"
    if "row rt p = Inr line" for line
  proof -
    from that obtain vs where "row_values rt p = Inr vs"
      by (auto simp: row_def bindE_eq_Inr)
    then obtain up sl where up: "upper rt nm = Inr up" and sl: "join_slugs (VList tags) = Inr sl"
      unfolding vals bindE_eq_Inr by blast
    from upper_Inr[OF up] join_slugs_Inr[OF sl] show ?thesis by blast
  qed
  have 3: "row rt p = Inr (join COL_SEP (row_fields rt d y x name slugs))"
    if "nm = VStr name" "mapE (\<lambda>t. bindE (getattr t ''slug'') as_str) tags = Inr slugs"
    for name slugs
    unfolding row_def vals
    by (simp add: that join_slugs_def row_fields_def str_flag del: str.simps(3))
  have 4: "length (row_fields rt d y x name slugs) = 16" for name slugs
    by (simp add: row_fields_def)
  have 5: "split_on (CHR '','') (join COL_SEP (row_fields rt d y x name slugs)) =
      row_fields rt d y x name slugs"
    if "\<forall>f\<in>set (row_fields rt d y x name slugs). CHR '','' \<notin> set f" for name slugs
    unfolding COL_SEP_def by (rule split_on_join[OF _ that]) (simp add: row_fields_def)
  show ?thesis
    apply (rule exI[of _ y])
    apply (rule exI[of _ x])
    apply (rule exI[of _ nm])
    apply (rule exI[of _ tags])
    apply (intro conjI allI impI)
           apply (rule 1)
          apply (rule 1)
         apply (rule 1)
        apply (rule 1)
       apply (erule 2)
      apply (erule conjE, erule (1) 3)
     apply (rule 4)
    apply (rule 5, assumption)
    done
qed

theorem row_is_sixteen_fields_witness:
  "normalise (VDict rec_full) = Inr probe_full \<and>
   row no_interpreter probe_full =
     Inr (join COL_SEP
       (row_fields no_interpreter rec_full (VFloat (Fin 20)) (VFloat (Fin 10)) ''Connected''
          [''a1'', ''b2''])) \<and>
   length (row_fields no_interpreter rec_full (VFloat (Fin 20)) (VFloat (Fin 10)) ''Connected''
          [''a1'', ''b2'']) = 16 \<and>
   row_fields no_interpreter rec_full (VFloat (Fin 20)) (VFloat (Fin 10)) ''Connected''
          [''a1'', ''b2''] =
     [''1'', ''3333'', [], [], [], [], [], ''NL'', ''20.0'', ''10.0'', ''0'', ''1'', [],
      ''CONNECTED'', [], ''a1+b2''] \<and>
   split_on (CHR '','') ''1,3333,,,,,,NL,20.0,10.0,0,1,,CONNECTED,,a1+b2'' =
     [''1'', ''3333'', [], [], [], [], [], ''NL'', ''20.0'', ''10.0'', ''0'', ''1'', [],
      ''CONNECTED'', [], ''a1+b2'']"
proof -
  let ?fields = "row_fields no_interpreter rec_full (VFloat (Fin 20)) (VFloat (Fin 10))
    ''Connected'' [''a1'', ''b2'']"
  let ?tags = "[Tag_init (VStr ''a'') (VStr ''a1''), Tag_init (VStr ''b'') (VStr ''b2'')]"
  from row_is_sixteen_fields[OF normalise_rec_full, of no_interpreter]
  obtain lat lng nm tags where
    lat: "getpath probe_full [''geometry'', ''coordinates'', ''lat''] = Inr lat"
    and lng: "getpath probe_full [''geometry'', ''coordinates'', ''lng''] = Inr lng"
    and nm: "getpath probe_full [''status'', ''name''] = Inr nm"
    and tags: "getattr probe_full ''tags'' = Inr (VList tags)"
    and fields: "\<forall>name slugs.
        nm = VStr name \<and> mapE (\<lambda>t. bindE (getattr t ''slug'') as_str) tags = Inr slugs \<longrightarrow>
        row no_interpreter probe_full =
          Inr (join COL_SEP (row_fields no_interpreter rec_full lat lng name slugs)) \<and>
        length (row_fields no_interpreter rec_full lat lng name slugs) = 16 \<and>
        ((\<forall>f\<in>set (row_fields no_interpreter rec_full lat lng name slugs). CHR '','' \<notin> set f) \<longrightarrow>
           split_on (CHR '','') (join COL_SEP (row_fields no_interpreter rec_full lat lng name slugs)) =
             row_fields no_interpreter rec_full lat lng name slugs)"
    by (elim exE conjE)
  have "getpath probe_full [''geometry'', ''coordinates'', ''lat''] = Inr (VFloat (Fin 20))"
    "getpath probe_full [''geometry'', ''coordinates'', ''lng''] = Inr (VFloat (Fin 10))"
    "getpath probe_full [''status'', ''name''] = Inr (VStr ''Connected'')"
    "getattr probe_full ''tags'' = Inr (VList ?tags)"
    by code_simp+
  with lat lng nm tags have eqs: "lat = VFloat (Fin 20)" "lng = VFloat (Fin 10)"
    "nm = VStr ''Connected''" "tags = ?tags"
    by simp_all
  have slugs: "mapE (\<lambda>t. bindE (getattr t ''slug'') as_str) ?tags = Inr [''a1'', ''b2'']"
    by code_simp
  from fields[rule_format, of "''Connected''" "[''a1'', ''b2'']"] eqs slugs
  have 1: "row no_interpreter probe_full = Inr (join COL_SEP ?fields)"
    and 2: "length ?fields = 16"
    by simp_all
  have 3: "?fields =
     [''1'', ''3333'', [], [], [], [], [], ''NL'', ''20.0'', ''10.0'', ''0'', ''1'', [],
      ''CONNECTED'', [], ''a1+b2'']"
    by code_simp
  have 4: "split_on (CHR '','') ''1,3333,,,,,,NL,20.0,10.0,0,1,,CONNECTED,,a1+b2'' =
     [''1'', ''3333'', [], [], [], [], [], ''NL'', ''20.0'', ''10.0'', ''0'', ''1'', [],
      ''CONNECTED'', [], ''a1+b2'']"
    by code_simp
  from normalise_rec_full 1 2 3 4 show ?thesis
    by (intro conjI)
qed

text \<open>
  Claim C3, as the code has it. The claim says that the row ends in \<^verbatim>\<open>,A1+B2\<close>. Only
  the name of the status is passed through \<^verbatim>\<open>upper()\<close>; the slugs are joined as they
  are, and the row of the sample record ends in \<^verbatim>\<open>,a1+b2\<close>.
\<close>

theorem full_record_row_counterexample:
  "normalise (VDict rec_full) = Inr probe_full \<and>
   row no_interpreter probe_full = Inr ''1,3333,,,,,,NL,20.0,10.0,0,1,,CONNECTED,,a1+b2'' \<and>
   \<not> suffix '',A1+B2'' ''1,3333,,,,,,NL,20.0,10.0,0,1,,CONNECTED,,a1+b2''"
proof -
  have "\<not> suffix '',A1+B2'' ''1,3333,,,,,,NL,20.0,10.0,0,1,,CONNECTED,,a1+b2''"
    by (simp add: suffix_def)
  with normalise_rec_full row_probe_full show ?thesis by blast
qed

text \<open>
  Claim C3, amended. For every raw record that normalises and has a status mapping whose
  name is a string, the geometry coordinates \<open>[10.0, 20.0]\<close> and the two tags of the
  claim, the serialisation succeeds with 16 values, the text of the latitude (the ninth
  after the first) is \<^verbatim>\<open>20.0\<close>, the text of the longitude is \<^verbatim>\<open>10.0\<close>, the last text
  is \<^verbatim>\<open>a1+b2\<close>, and the row ends in \<^verbatim>\<open>,a1+b2\<close>: the slugs joined by \<^verbatim>\<open>+\<close>, in the
  case they have in the record.
\<close>

theorem full_record_row:
  assumes "normalise (VDict d) = Inr p"
    and "field d ''status'' = VDict st" and "field st ''name'' = VStr name"
    and "field d ''geometry'' = VDict g"
    and "field g ''coordinates'' = VList [VFloat (Fin 10), VFloat (Fin 20)]"
    and "field d ''tags'' =
           VList [VDict [(''name'', VStr ''a''), (''slug'', VStr ''a1'')],
                  VDict [(''name'', VStr ''b''), (''slug'', VStr ''b2'')]]"
  shows "\<exists>vs line.
           row_values rt p = Inr vs \<and> length vs = 16 \<and>
           str rt (vs ! 8) = ''20.0'' \<and> str rt (vs ! 9) = ''10.0'' \<and>
           str rt (vs ! 15) = ''a1+b2'' \<and>
           row rt p = Inr line \<and> suffix '',a1+b2'' line"
proof -
  let ?ts = "[VDict [(''name'', VStr ''a''), (''slug'', VStr ''a1'')],
              VDict [(''name'', VStr ''b''), (''slug'', VStr ''b2'')]]"
  let ?tags = "[Tag_init (VStr ''a'') (VStr ''a1''), Tag_init (VStr ''b'') (VStr ''b2'')]"
  from normalise_Inr[OF assms(1)] obtain status geometry ts tags where
    st: "build_status (field d ''status'') = Inr status"
    and geo: "build_geometry (field d ''geometry'') = Inr geometry"
    and ts: "iter (field d ''tags'') = Inr ts"
    and tags: "mapE make_tag ts = Inr tags"
    and p: "p = probe_obj d status geometry (VList tags)"
    by blast
  have "mapE make_tag ?ts = Inr ?tags"
    by code_simp
  with ts tags have tags_eq: "tags = ?tags"
    by (simp add: assms(6))
  have slugs: "join_slugs (VList ?tags) = Inr (VStr ''a1+b2'')"
    by code_simp
  note status = build_status_dict[OF st[unfolded assms(2)], unfolded assms(3)]
  note geometry = build_geometry_pair[OF geo[unfolded assms(4)] assms(5)]
  let ?front = "[field d ''id'', field d ''asn_v4'', field d ''address_v4'', field d ''prefix_v4'',
          field d ''asn_v6'', field d ''address_v6'', field d ''prefix_v6'',
          field d ''country_code'', VFloat (Fin 20), VFloat (Fin 10),
          VInt (if truthy (field d ''is_anchor'') then 1 else 0),
          VInt (if truthy (field d ''is_public'') then 1 else 0),
          field d ''last_connected'', VStr (str_upper rt name), field d ''status_since'']"
  let ?vs = "?front @ [VStr ''a1+b2'']"
  have vs: "row_values rt p = Inr ?vs"
    unfolding p status geometry tags_eq row_values_probe by (simp add: slugs)
  have lat: "str rt (VFloat (Fin 20)) = ''20.0''" and lng: "str rt (VFloat (Fin 10)) = ''10.0''"
    by code_simp+
  have line: "row rt p = Inr (join COL_SEP (map (str rt) ?front) @ '','' @ ''a1+b2'')"
    unfolding row_def vs by (simp only: bindE_Inr map_append join_snoc) (simp add: COL_SEP_def)
  have suffix: "suffix '',a1+b2'' (join COL_SEP (map (str rt) ?front) @ '','' @ ''a1+b2'')"
    by (simp add: suffix_def)
  have len: "length ?vs = 16"
    by simp
  have f8: "str rt (?vs ! 8) = ''20.0''" and f9: "str rt (?vs ! 9) = ''10.0''"
    by (simp_all del: str.simps add: lat lng)
  have f15: "str rt (?vs ! 15) = ''a1+b2''"
    by simp
  from vs len f8 f9 f15 line suffix show ?thesis
    by blast
qed

theorem full_record_row_witness:
  "normalise (VDict rec_full) = Inr probe_full \<and>
   field rec_full ''status'' =
     VDict [(''since'', VStr ''2016-05-23T00:42:00Z''), (''id'', VInt 1),
            (''name'', VStr ''Connected'')] \<and>
   field rec_full ''geometry'' =
     VDict [(''type'', VStr ''Point''), (''coordinates'', VList [VFloat (Fin 10), VFloat (Fin 20)])] \<and>
   field rec_full ''tags'' =
     VList [VDict [(''name'', VStr ''a''), (''slug'', VStr ''a1'')],
            VDict [(''name'', VStr ''b''), (''slug'', VStr ''b2'')]] \<and>
   row no_interpreter probe_full = Inr ''1,3333,,,,,,NL,20.0,10.0,0,1,,CONNECTED,,a1+b2'' \<and>
   suffix '',a1+b2'' ''1,3333,,,,,,NL,20.0,10.0,0,1,,CONNECTED,,a1+b2''"
proof -
  let ?st = "[(''since'', VStr ''2016-05-23T00:42:00Z''), (''id'', VInt 1),
              (''name'', VStr ''Connected'')]"
  let ?g = "[(''type'', VStr ''Point''), (''coordinates'', VList [VFloat (Fin 10), VFloat (Fin 20)])]"
  have st: "field rec_full ''status'' = VDict ?st"
    and nm: "field ?st ''name'' = VStr ''Connected''"
    and g: "field rec_full ''geometry'' = VDict ?g"
    and c: "field ?g ''coordinates'' = VList [VFloat (Fin 10), VFloat (Fin 20)]"
    and t: "field rec_full ''tags'' =
      VList [VDict [(''name'', VStr ''a''), (''slug'', VStr ''a1'')],
             VDict [(''name'', VStr ''b''), (''slug'', VStr ''b2'')]]"
    by code_simp+
  from full_record_row[OF normalise_rec_full st nm g c t, of no_interpreter] row_probe_full
  have "suffix '',a1+b2'' ''1,3333,,,,,,NL,20.0,10.0,0,1,,CONNECTED,,a1+b2''"
    by auto
  with normalise_rec_full st g t row_probe_full show ?thesis by blast
qed

end
